theory Spec2Isabelle
  imports Main
begin

section \<open>JavaScript strings\<close>

text \<open>
  A JavaScript string is a sequence of UTF-16 code units. It is modelled as a \<open>string\<close>,
  one \<open>char\<close> per code unit, which covers the code units 0 to 255 (ASCII and Latin-1).
  On that range \<open>trim\<close>, \<open>toLowerCase\<close>, \<open>split\<close>, \<open>substring\<close>, \<open>includes\<close> and the
  regular expressions of the source are the list functions below. The pictographs that open
  the bot's own messages lie outside the range; each one is a named constant holding its
  UTF-8 bytes, and no property depends on their length.
\<close>

definition nl :: string where
  "nl = [CHR 0x0A]"

definition isWhiteSpace :: "char \<Rightarrow> bool" where
  "isWhiteSpace c =
     (c \<in> set [CHR 0x09, CHR 0x0A, CHR 0x0B, CHR 0x0C, CHR 0x0D, CHR 0x20, CHR 0xA0])"

text \<open>\<open>s.trim()\<close>: white space and line terminators go from both ends.\<close>

definition trim :: "string \<Rightarrow> string" where
  "trim s = rev (dropWhile isWhiteSpace (rev (dropWhile isWhiteSpace s)))"

text \<open>\<open>s.toLowerCase()\<close> on Latin-1: A to Z, and U+00C0 to U+00DE but for the
  multiplication sign U+00D7, go to the letter 32 places up.\<close>

definition upperCaseLetters :: string where
  "upperCaseLetters = ''ABCDEFGHIJKLMNOPQRSTUVWXYZ'' @
     [CHR 0xC0, CHR 0xC1, CHR 0xC2, CHR 0xC3, CHR 0xC4, CHR 0xC5, CHR 0xC6, CHR 0xC7,
      CHR 0xC8, CHR 0xC9, CHR 0xCA, CHR 0xCB, CHR 0xCC, CHR 0xCD, CHR 0xCE, CHR 0xCF,
      CHR 0xD0, CHR 0xD1, CHR 0xD2, CHR 0xD3, CHR 0xD4, CHR 0xD5, CHR 0xD6,
      CHR 0xD8, CHR 0xD9, CHR 0xDA, CHR 0xDB, CHR 0xDC, CHR 0xDD, CHR 0xDE]"

definition lowerCaseLetters :: string where
  "lowerCaseLetters = ''abcdefghijklmnopqrstuvwxyz'' @
     [CHR 0xE0, CHR 0xE1, CHR 0xE2, CHR 0xE3, CHR 0xE4, CHR 0xE5, CHR 0xE6, CHR 0xE7,
      CHR 0xE8, CHR 0xE9, CHR 0xEA, CHR 0xEB, CHR 0xEC, CHR 0xED, CHR 0xEE, CHR 0xEF,
      CHR 0xF0, CHR 0xF1, CHR 0xF2, CHR 0xF3, CHR 0xF4, CHR 0xF5, CHR 0xF6,
      CHR 0xF8, CHR 0xF9, CHR 0xFA, CHR 0xFB, CHR 0xFC, CHR 0xFD, CHR 0xFE]"

definition toLowerChar :: "char \<Rightarrow> char" where
  "toLowerChar c =
     (case map_of (zip upperCaseLetters lowerCaseLetters) c of
        None \<Rightarrow> c
      | Some l \<Rightarrow> l)"

definition toLowerCase :: "string \<Rightarrow> string" where
  "toLowerCase s = map toLowerChar s"

text \<open>\<open>s.startsWith(p)\<close> and \<open>s.includes(p)\<close>.\<close>

fun startsWith :: "string \<Rightarrow> string \<Rightarrow> bool" where
  "startsWith s [] = True"
| "startsWith [] (p # ps) = False"
| "startsWith (c # cs) (p # ps) = (c = p \<and> startsWith cs ps)"

fun includes_str :: "string \<Rightarrow> string \<Rightarrow> bool" where
  "includes_str [] p = (p = [])"
| "includes_str (c # cs) p = (startsWith (c # cs) p \<or> includes_str cs p)"

text \<open>\<open>s.substring(0, n)\<close> for a non-negative \<open>n\<close>.\<close>

definition substring0 :: "string \<Rightarrow> nat \<Rightarrow> string" where
  "substring0 s n = take n s"

text \<open>\<open>s.split(sep)\<close> for a one-character separator: the empty string splits into one
  empty piece.\<close>

fun split :: "string \<Rightarrow> char \<Rightarrow> string list" where
  "split [] sep = [[]]"
| "split (c # cs) sep =
     (if c = sep then [] # split cs sep
      else (case split cs sep of [] \<Rightarrow> [[c]] | p # ps \<Rightarrow> (c # p) # ps))"

text \<open>\<open>xs.join(sep)\<close>.\<close>

fun join :: "string list \<Rightarrow> string \<Rightarrow> string" where
  "join [] sep = []"
| "join [x] sep = x"
| "join (x # y # ys) sep = x @ sep @ join (y # ys) sep"

text \<open>A string option read as a JavaScript condition: \<open>undefined\<close>, \<open>null\<close> and the empty
  string are falsy. \<open>orElse v d\<close> is \<open>v || d\<close>.\<close>

fun truthy :: "string option \<Rightarrow> bool" where
  "truthy None = False"
| "truthy (Some s) = (s \<noteq> [])"

definition orElse :: "string option \<Rightarrow> string \<Rightarrow> string" where
  "orElse v d = (case v of None \<Rightarrow> d | Some s \<Rightarrow> if s = [] then d else s)"

text \<open>The decimal text of a natural number, as a template literal prints it.\<close>

definition digit :: "nat \<Rightarrow> char" where
  "digit d = ''0123456789'' ! d"

function toString :: "nat \<Rightarrow> string" where
  "toString n = (if n < 10 then [digit n] else toString (n div 10) @ [digit (n mod 10)])"
  by pat_completeness auto
termination
  by (relation "measure (\<lambda>n. n)") auto

declare toString.simps [simp del]

text \<open>
  \<open>(bytes / 1024 / 1024).toFixed(2)\<close>. Both divisions are by powers of two and exact, and
  \<open>toFixed\<close> rounds the exact value to the nearest hundredth, a tie going up: the number of
  hundredths is \<open>(200 * bytes + 2^20) div 2^21\<close>.
\<close>

definition toFixed2MB :: "nat \<Rightarrow> string" where
  "toFixed2MB bytes =
     (let h = (200 * bytes + 1048576) div 2097152
      in toString (h div 100) @ ''.'' @ [digit (h mod 100 div 10), digit (h mod 10)])"

text \<open>
  \<open>s.match(/LIT([^X]+)/)\<close>, capture group 1: the leftmost place where the literal text
  stands right before at least one character other than \<open>X\<close>; the group is the longest
  run of such characters there.
\<close>

fun matchGroup :: "string \<Rightarrow> string \<Rightarrow> char \<Rightarrow> string option" where
  "matchGroup [] lit stop = None"
| "matchGroup (c # cs) lit stop =
     (if startsWith (c # cs) lit
         \<and> takeWhile (\<lambda>x. x \<noteq> stop) (drop (length lit) (c # cs)) \<noteq> []
      then Some (takeWhile (\<lambda>x. x \<noteq> stop) (drop (length lit) (c # cs)))
      else matchGroup cs lit stop)"

section \<open>Paths\<close>

text \<open>
  Node's \<open>path.extname\<close> (POSIX): trailing slashes are skipped, the last path component
  is taken, and the extension runs from its last dot to its end. There is no extension
  when the component has no dot, when its only dot is its first character, or when the
  component is \<open>..\<close>.
\<close>

definition extname :: "string \<Rightarrow> string" where
  "extname p =
     (let trimmed = rev (dropWhile (\<lambda>c. c = CHR ''/'') (rev p));
          base = rev (takeWhile (\<lambda>c. c \<noteq> CHR ''/'') (rev trimmed));
          suffix = rev (takeWhile (\<lambda>c. c \<noteq> CHR ''.'') (rev base));
          stem = take (length base - length suffix - 1) base
      in if CHR ''.'' \<notin> set base then []
         else if stem = [] then []
         else if base = ''..'' then []
         else CHR ''.'' # suffix)"

section \<open>Configuration (config.js)\<close>

definition defaultMaxSize :: int where
  "defaultMaxSize = 50 * 1024 * 1024"

text \<open>\<open>parseInt(process.env.MAX_FILE_SIZE) || 50 * 1024 * 1024\<close>: the argument is the
  parsed variable, \<open>None\<close> when it is unset or not a number (NaN); NaN and 0 are falsy.\<close>

definition files_maxSize :: "int option \<Rightarrow> int" where
  "files_maxSize parsed =
     (case parsed of None \<Rightarrow> defaultMaxSize
      | Some n \<Rightarrow> if n = 0 then defaultMaxSize else n)"

definition tempDir :: string where
  "tempDir = ''./temp''"

definition allowedExtensions :: "string list" where
  "allowedExtensions = [''.mp4'', ''.mkv'', ''.avi'', ''.mov'', ''.wmv'', ''.flv'', ''.webm'']"

text \<open>
  The configuration the other modules read: \<open>maxSize\<close> is \<open>config.files.maxSize\<close>,
  \<open>maxSizeMB\<close> is the text the platform prints for \<open>maxSize / 1024 / 1024\<close> inside a
  template literal, \<open>adminIds\<close> is \<open>config.telegram.adminIds\<close>.
\<close>

record config =
  maxSize :: int
  maxSizeMB :: string
  adminIds :: "int list"

section \<open>Results, requests and the world outside the process\<close>

text \<open>
  Every asynchronous operation of the source answers \<open>{success: true, ...}\<close> or
  \<open>{success: false, error}\<close>; \<open>Ok\<close> and \<open>Failed\<close> are the two shapes. Inside a \<open>try\<close>
  block a thrown \<open>Error\<close> is \<open>Inl\<close> of its message.
\<close>

datatype 'a result = Ok 'a | Failed string

text \<open>The request body of \<open>youtube.videos.insert\<close>: \<open>snippet\<close> and \<open>status\<close>.\<close>

record metadata =
  md_title :: string
  md_description :: string
  md_tags :: "string list"
  md_categoryId :: string
  md_privacyStatus :: string
  md_selfDeclaredMadeForKids :: bool

text \<open>What the platform answers to \<open>videos.insert\<close>, as far as the source reads it.\<close>

record inserted =
  ins_id :: string
  ins_title :: string
  ins_privacyStatus :: string
  ins_thumbnail :: "string option"

text \<open>What \<open>oauth2.userinfo.get\<close> answers, as far as the source reads it.\<close>

record userinfo =
  ui_email :: string
  ui_name :: string
  ui_picture :: string

text \<open>
  A stored credential: the token set of the OAuth exchange (opaque to the program) with the
  bookkeeping \<open>saveTokens\<close> adds.
\<close>

record credential =
  cr_tokens :: string
  cr_savedAt :: nat
  cr_userId :: int

text \<open>
  An HTTP download (\<open>axios\<close> with \<open>responseType: 'stream'\<close>, then \<open>pipeline\<close> into
  \<open>fs.createWriteStream\<close>). The request fails before any stream exists, or it answers
  with a stream (and a \<open>content-type\<close> header, possibly absent) whose transfer runs to
  completion with so many bytes, or breaks after so many bytes with an error.
\<close>

datatype transfer = Completed nat | Interrupted nat string

datatype response = RequestFailed string | Stream "string option" transfer

text \<open>
  The calls that leave the process, in the order they are made. A reply is recorded by its
  text; its formatting options and inline keyboards are not, and sending it is taken to
  succeed.
\<close>

datatype event =
    Reply string
  | EditMessageText string
  | AnswerCbQuery
  | GetFileLink string
  | HttpHead string
  | HttpGet string
  | ChannelsList
  | VideosInsert metadata string string
  | GetToken string
  | UserinfoGet

text \<open>
  The world a handler runs in: scratch storage (path to size in bytes), the token file
  \<open>auth/tokens.json\<close> (\<open>None\<close> while it does not exist) and the calls made so far.
  Calls to the local file system are taken to succeed; calls over the network may fail.
\<close>

record world =
  files :: "string \<rightharpoonup> nat"
  tokensFile :: "(int \<rightharpoonup> credential) option"
  trace :: "event list"

text \<open>
  What the platform and the remote services answer. \<open>now\<close> is \<open>Date.now()\<close>;
  \<open>pathJoin\<close> and \<open>basename\<close> are Node's \<open>path.join\<close> and \<open>path.basename\<close>;
  \<open>isUrl\<close> says whether \<open>new URL(s)\<close> parses; the others are the remote calls, \<open>Inl\<close> the
  message of the error they throw.
\<close>

record env =
  now :: nat
  pathJoin :: "string \<Rightarrow> string \<Rightarrow> string"
  basename :: "string \<Rightarrow> string"
  isUrl :: "string \<Rightarrow> bool"
  httpGet :: "string \<Rightarrow> response"
  getFileLink :: "string \<Rightarrow> string + string"
  channelsList :: "string \<Rightarrow> bool"
  videosInsert :: "metadata \<Rightarrow> string \<Rightarrow> string \<Rightarrow> string + inserted"
  getToken :: "string \<Rightarrow> string + string"
  userinfoGet :: "string \<Rightarrow> string + userinfo"

definition emit :: "event \<Rightarrow> world \<Rightarrow> world" where
  "emit e w = w\<lparr>trace := trace w @ [e]\<rparr>"

text \<open>The stream written to a path (the file is created or truncated, then filled), and
  \<open>fs.remove\<close>.\<close>

definition written :: "string \<Rightarrow> nat \<Rightarrow> world \<Rightarrow> world" where
  "written path n w = w\<lparr>files := (files w)(path \<mapsto> n)\<rparr>"

definition remove :: "string \<Rightarrow> world \<Rightarrow> world" where
  "remove path w = w\<lparr>files := (files w)(path := None)\<rparr>"

section \<open>The acquisition layer (downloader.js)\<close>

record download =
  dl_filePath :: string
  dl_fileName :: string
  dl_size :: nat
  dl_mimeType :: string

text \<open>The \<open>try\<close> block of \<open>downloadTelegramFile\<close>.\<close>

definition downloadTelegramFile_try ::
  "env \<Rightarrow> config \<Rightarrow> string \<Rightarrow> string \<Rightarrow> world \<Rightarrow> (string + download) \<times> world" where
  "downloadTelegramFile_try e cfg fileUrl fileName w =
     (let path = pathJoin e tempDir fileName;
          w1 = emit (HttpGet fileUrl) w
      in case httpGet e fileUrl of
           RequestFailed m \<Rightarrow> (Inl m, w1)
         | Stream ctype (Interrupted k m) \<Rightarrow> (Inl m, written path k w1)
         | Stream ctype (Completed n) \<Rightarrow>
             (let w2 = written path n w1
              in if n = 0 then (Inl ''Downloaded file is empty'', remove path w2)
                 else if int n > maxSize cfg
                 then (Inl (''File too large: '' @ toFixed2MB n @ ''MB (max: ''
                              @ maxSizeMB cfg @ ''MB)''), remove path w2)
                 else (Inr \<lparr>dl_filePath = path, dl_fileName = basename e path, dl_size = n,
                             dl_mimeType = orElse ctype ''video/mp4''\<rparr>, w2)))"

definition downloadTelegramFile ::
  "env \<Rightarrow> config \<Rightarrow> string \<Rightarrow> string \<Rightarrow> world \<Rightarrow> download result \<times> world" where
  "downloadTelegramFile e cfg fileUrl fileName w =
     (case downloadTelegramFile_try e cfg fileUrl fileName w of
        (Inr d, w') \<Rightarrow> (Ok d, w')
      | (Inl m, w') \<Rightarrow> (Failed (''Download failed: '' @ m), w'))"

text \<open>\<open>downloadDirectUrl\<close>, after its \<open>startsWith\<close> check: the rest of the \<open>try\<close> block.
  The \<open>HEAD\<close> probe only feeds a warning of the log, and its own failure is swallowed.\<close>

definition downloadDirectUrl_try ::
  "env \<Rightarrow> config \<Rightarrow> string \<Rightarrow> string option \<Rightarrow> world \<Rightarrow> (string + download) \<times> world" where
  "downloadDirectUrl_try e cfg url fileName w =
     (let path = pathJoin e tempDir
                   (orElse fileName (''direct_'' @ toString (now e) @ ''.mp4''));
          w1 = emit (HttpGet url) (emit (HttpHead url) w)
      in case httpGet e url of
           RequestFailed m \<Rightarrow> (Inl m, w1)
         | Stream ctype (Interrupted k m) \<Rightarrow> (Inl m, written path k w1)
         | Stream ctype (Completed n) \<Rightarrow>
             (let w2 = written path n w1
              in if int n > maxSize cfg
                 then (Inl (''File too large: '' @ toFixed2MB n @ ''MB''), remove path w2)
                 else (Inr \<lparr>dl_filePath = path, dl_fileName = basename e path, dl_size = n,
                             dl_mimeType = orElse ctype ''video/mp4''\<rparr>, w2)))"

definition downloadDirectUrl ::
  "env \<Rightarrow> config \<Rightarrow> string \<Rightarrow> string option \<Rightarrow> world \<Rightarrow> download result \<times> world" where
  "downloadDirectUrl e cfg url fileName w =
     (if \<not> startsWith url ''http'' then (Failed ''Invalid URL'', w)
      else (case downloadDirectUrl_try e cfg url fileName w of
              (Inr d, w') \<Rightarrow> (Ok d, w')
            | (Inl m, w') \<Rightarrow> (Failed (''URL download failed: '' @ m), w')))"

text \<open>
  The four patterns of \<open>downloadGoogleDrive\<close>, each the literal text before its group and
  the character its group stops at, and the loop that takes the group of the first pattern
  that matches. Nothing in the \<open>try\<close> block of \<open>downloadGoogleDrive\<close> throws
  (\<open>downloadDirectUrl\<close> catches its own errors), so its \<open>catch\<close> block has no case here.
\<close>

definition urlPatterns :: "(string \<times> char) list" where
  "urlPatterns =
     [(''/d/'', CHR ''/''),
      (''id='', CHR ''&''),
      (''/file/d/'', CHR ''/''),
      (''drive.google.com/open?id='', CHR ''&'')]"

fun firstMatch :: "(string \<times> char) list \<Rightarrow> string \<Rightarrow> string option" where
  "firstMatch [] url = None"
| "firstMatch ((lit, stop) # ps) url =
     (case matchGroup url lit stop of
        Some g \<Rightarrow> Some g
      | None \<Rightarrow> firstMatch ps url)"

definition downloadGoogleDrive ::
  "env \<Rightarrow> config \<Rightarrow> string \<Rightarrow> string option \<Rightarrow> world \<Rightarrow> download result \<times> world" where
  "downloadGoogleDrive e cfg url fileName w =
     (case firstMatch urlPatterns url of
        None \<Rightarrow> (Failed ''Invalid Google Drive URL format'', w)
      | Some fileId \<Rightarrow>
          downloadDirectUrl e cfg (''https://drive.google.com/uc?export=download&id='' @ fileId)
            (Some (orElse fileName (''gdrive_'' @ toString (now e) @ ''.mp4''))) w)"

definition getFileExtension :: "string \<Rightarrow> string" where
  "getFileExtension filename = toLowerCase (extname filename)"

definition isValidExtension :: "string \<Rightarrow> bool" where
  "isValidExtension filename = (toLowerCase (extname filename) \<in> set allowedExtensions)"

text \<open>\<open>cleanup(filePath)\<close>: a truthy path that exists is removed.\<close>

definition cleanup :: "string option \<Rightarrow> world \<Rightarrow> world" where
  "cleanup filePath w =
     (case filePath of
        None \<Rightarrow> w
      | Some p \<Rightarrow> if p \<noteq> [] \<and> files w p \<noteq> None then remove p w else w)"

section \<open>The credential store and the upload gateway (uploader.js)\<close>

text \<open>\<open>getTokens\<close>: the entry of the user in the token file, \<open>null\<close> when the file or the
  entry is missing.\<close>

definition getTokens :: "world \<Rightarrow> int \<Rightarrow> credential option" where
  "getTokens w userId =
     (case tokensFile w of None \<Rightarrow> None | Some allTokens \<Rightarrow> allTokens userId)"

text \<open>\<open>saveTokens\<close>: the entry of the user is overwritten with the token set, the time of
  saving and the user's identifier, and the file is written.\<close>

definition saveTokens :: "env \<Rightarrow> int \<Rightarrow> string \<Rightarrow> world \<Rightarrow> world" where
  "saveTokens e userId tokens w =
     (let allTokens = (case tokensFile w of None \<Rightarrow> Map.empty | Some m \<Rightarrow> m)
      in w\<lparr>tokensFile :=
             Some (allTokens(userId \<mapsto>
               \<lparr>cr_tokens = tokens, cr_savedAt = now e, cr_userId = userId\<rparr>))\<rparr>)"

definition deleteTokens :: "int \<Rightarrow> world \<Rightarrow> world" where
  "deleteTokens userId w =
     (case tokensFile w of
        None \<Rightarrow> w
      | Some allTokens \<Rightarrow> w\<lparr>tokensFile := Some (allTokens(userId := None))\<rparr>)"

text \<open>\<open>checkAuth\<close>: no stored credential means not authenticated, with no remote call;
  otherwise one \<open>channels.list\<close> call probes the credential, and its failure means not
  authenticated.\<close>

definition checkAuth :: "env \<Rightarrow> int \<Rightarrow> world \<Rightarrow> bool \<times> world" where
  "checkAuth e userId w =
     (case getTokens w userId of
        None \<Rightarrow> (False, w)
      | Some c \<Rightarrow> (channelsList e (cr_tokens c), emit ChannelsList w))"

record profile =
  pr_userId :: int
  pr_email :: string
  pr_name :: string
  pr_picture :: string

text \<open>\<open>handleAuthCallback\<close>: the code is exchanged for a token set, the token set is
  verified by reading the user's profile, and only then saved.\<close>

definition handleAuthCallback :: "env \<Rightarrow> string \<Rightarrow> int \<Rightarrow> world \<Rightarrow> profile result \<times> world" where
  "handleAuthCallback e code userId w =
     (let w1 = emit (GetToken code) w
      in case getToken e code of
           Inl m \<Rightarrow> (Failed m, w1)
         | Inr tokens \<Rightarrow>
             (let w2 = emit UserinfoGet w1
              in case userinfoGet e tokens of
                   Inl m \<Rightarrow> (Failed m, w2)
                 | Inr info \<Rightarrow>
                     (Ok \<lparr>pr_userId = userId, pr_email = ui_email info,
                          pr_name = ui_name info, pr_picture = ui_picture info\<rparr>,
                      saveTokens e userId tokens w2)))"

text \<open>The accumulating record of a session, which is also the \<open>videoData\<close> argument of
  \<open>uploadVideo\<close>. A field that was never assigned is \<open>None\<close>.\<close>

record videoInfo =
  title :: "string option"
  description :: "string option"
  tags :: "string option"
  privacyStatus :: "string option"
  categoryId :: "string option"
  mimeType :: "string option"
  vi_size :: "nat option"
  vi_filePath :: "string option"

definition emptyVideoInfo :: videoInfo where
  "emptyVideoInfo =
     \<lparr>title = None, description = None, tags = None, privacyStatus = None,
      categoryId = None, mimeType = None, vi_size = None, vi_filePath = None\<rparr>"

text \<open>The object \<open>videoMetadata\<close> that \<open>uploadVideo\<close> builds, for a record whose title is
  \<open>t\<close>.\<close>

definition videoMetadata :: "videoInfo \<Rightarrow> string \<Rightarrow> metadata" where
  "videoMetadata videoData t =
     \<lparr>md_title = substring0 t 100,
      md_description =
        (case description videoData of
           None \<Rightarrow> []
         | Some d \<Rightarrow> if d = [] then [] else substring0 d 5000),
      md_tags =
        (case tags videoData of
           None \<Rightarrow> []
         | Some s \<Rightarrow>
             if s = [] then []
             else take 30 (filter (\<lambda>tag. length tag > 0) (map trim (split s (CHR '',''))))),
      md_categoryId = orElse (categoryId videoData) ''22'',
      md_privacyStatus = orElse (privacyStatus videoData) ''private'',
      md_selfDeclaredMadeForKids = False\<rparr>"

record uploaded =
  up_videoId :: string
  up_videoUrl :: string
  up_title :: string
  up_privacyStatus :: string
  up_thumbnail :: "string option"

text \<open>The messages of the two \<open>TypeError\<close>s the platform throws inside \<open>uploadVideo\<close>:
  \<open>substring\<close> read from an undefined title, and \<open>fs.createReadStream\<close> of an undefined
  path.\<close>

definition undefinedTitleMessage :: string where
  "undefinedTitleMessage =
     ''Cannot read properties of undefined (reading '' @ [CHR 0x27] @ ''substring''
       @ [CHR 0x27] @ '')''"

definition undefinedPathMessage :: string where
  "undefinedPathMessage =
     ''The '' @ [CHR 0x22] @ ''path'' @ [CHR 0x22]
       @ '' argument must be of type string or an instance of Buffer or URL. Received undefined''"

text \<open>The \<open>try\<close> block of \<open>uploadVideo\<close>.\<close>

definition uploadVideo_try ::
  "env \<Rightarrow> int \<Rightarrow> videoInfo \<Rightarrow> world \<Rightarrow> (string + uploaded) \<times> world" where
  "uploadVideo_try e userId videoData w =
     (case getTokens w userId of
        None \<Rightarrow> (Inl ''User not authenticated. Please use /auth first.'', w)
      | Some c \<Rightarrow>
          (case title videoData of
             None \<Rightarrow> (Inl undefinedTitleMessage, w)
           | Some t \<Rightarrow>
               (case vi_filePath videoData of
                  None \<Rightarrow> (Inl undefinedPathMessage, w)
                | Some p \<Rightarrow>
                    (let body = videoMetadata videoData t;
                         mime = orElse (mimeType videoData) ''video/mp4'';
                         w1 = emit (VideosInsert body p mime) w
                     in case videosInsert e body p mime of
                          Inl m \<Rightarrow> (Inl m, w1)
                        | Inr r \<Rightarrow>
                            (Inr \<lparr>up_videoId = ins_id r,
                                   up_videoUrl = ''https://www.youtube.com/watch?v='' @ ins_id r,
                                   up_title = ins_title r,
                                   up_privacyStatus = ins_privacyStatus r,
                                   up_thumbnail = ins_thumbnail r\<rparr>, w1)))))"

definition uploadVideo ::
  "env \<Rightarrow> int \<Rightarrow> videoInfo \<Rightarrow> world \<Rightarrow> uploaded result \<times> world" where
  "uploadVideo e userId videoData w =
     (case uploadVideo_try e userId videoData w of
        (Inr r, w') \<Rightarrow> (Ok r, w')
      | (Inl m, w') \<Rightarrow> (Failed m, w'))"

section \<open>The session state machine (bot.js)\<close>

datatype step =
    Idle | AwaitingVideo | Downloading | AwaitingTitle | AwaitingDescription
  | AwaitingPrivacy | AwaitingTags | Uploading

datatype authStep = AwaitingCode

text \<open>
  One entry of \<open>userSessions\<close>. The two progress fields, which only \<open>/status\<close> reads, are
  left out. A handler below takes the session of the sender, as the middleware has stored
  it before any handler runs, and the world, and gives both back. A handler is taken to
  run from its event to its end with no other event of the same user in between.
\<close>

record session =
  step :: step
  videoInfo :: videoInfo
  filePath :: "string option"
  authStep :: "authStep option"
  lastActivity :: nat
  isAdmin :: bool

text \<open>The authorization middleware: a first event creates the session of the user, and
  every event stamps it.\<close>

definition middleware ::
  "env \<Rightarrow> config \<Rightarrow> int \<Rightarrow> (int \<rightharpoonup> session) \<Rightarrow> (int \<rightharpoonup> session)" where
  "middleware e cfg userId userSessions =
     (let s = (case userSessions userId of
                 None \<Rightarrow> \<lparr>step = Idle, videoInfo = emptyVideoInfo, filePath = None,
                           authStep = None, lastActivity = now e,
                           isAdmin = (userId \<in> set (adminIds cfg))\<rparr>
               | Some s0 \<Rightarrow> s0)
      in userSessions(userId \<mapsto> s\<lparr>lastActivity := now e\<rparr>))"

subsection \<open>Message texts\<close>

definition crossMark :: string where
  "crossMark = [CHR 0xE2, CHR 0x9D, CHR 0x8C]"

definition checkMark :: string where
  "checkMark = [CHR 0xE2, CHR 0x9C, CHR 0x85]"

definition bullet :: string where
  "bullet = [CHR 0xE2, CHR 0x80, CHR 0xA2]"

definition inboxTray :: string where
  "inboxTray = [CHR 0xF0, CHR 0x9F, CHR 0x93, CHR 0xA5]"

definition outboxTray :: string where
  "outboxTray = [CHR 0xF0, CHR 0x9F, CHR 0x93, CHR 0xA4]"

definition linkSign :: string where
  "linkSign = [CHR 0xF0, CHR 0x9F, CHR 0x94, CHR 0x97]"

definition rocket :: string where
  "rocket = [CHR 0xF0, CHR 0x9F, CHR 0x9A, CHR 0x80]"

definition lockAndKey :: string where
  "lockAndKey = [CHR 0xF0, CHR 0x9F, CHR 0x94, CHR 0x90]"

definition padlock :: string where
  "padlock = [CHR 0xF0, CHR 0x9F, CHR 0x94, CHR 0x92]"

definition videoCamera :: string where
  "videoCamera = [CHR 0xF0, CHR 0x9F, CHR 0x93, CHR 0xB9]"

definition memo :: string where
  "memo = [CHR 0xF0, CHR 0x9F, CHR 0x93, CHR 0x9D]"

definition authRequiredMsg :: string where
  "authRequiredMsg =
     crossMark @ '' *Authentication Required*'' @ nl @ nl
       @ ''Please authenticate first using /auth command.''"

definition uploadMsg :: string where
  "uploadMsg =
     nl @ outboxTray @ '' *Upload Video to YouTube*'' @ nl
     @ nl @ ''You can send me:'' @ nl
     @ bullet @ '' A video file (up to 50MB)'' @ nl
     @ bullet @ '' A Google Drive link'' @ nl
     @ bullet @ '' A direct video URL'' @ nl
     @ nl @ ''*Supported formats:* MP4, MKV, AVI, MOV, WMV'' @ nl
     @ ''*Max size:* 50MB'' @ nl
     @ nl @ memo @ '' *Or use the button below for step-by-step upload*'' @ nl
     @ ''      ''"

definition pleaseAuthMsg :: string where
  "pleaseAuthMsg = crossMark @ '' Please authenticate first using /auth command.''"

definition uploadFirstMsg :: string where
  "uploadFirstMsg = ''Please use /upload first to start the upload process.''"

definition tooLargeMsg :: "config \<Rightarrow> nat \<Rightarrow> string" where
  "tooLargeMsg cfg file_size =
     crossMark @ '' File too large!'' @ nl @ nl
       @ ''Size: '' @ toFixed2MB file_size @ ''MB'' @ nl
       @ ''Max allowed: '' @ maxSizeMB cfg @ ''MB''"

definition unsupportedMsg :: "string \<Rightarrow> string" where
  "unsupportedMsg extension =
     crossMark @ '' Unsupported file format: '' @ extension @ nl @ nl
       @ ''Supported formats: '' @ join allowedExtensions '', ''"

definition downloadFailedMsg :: "string \<Rightarrow> string" where
  "downloadFailedMsg err = crossMark @ '' Download failed: '' @ err"

definition downloadedMsg :: "nat \<Rightarrow> string" where
  "downloadedMsg bytes =
     checkMark @ '' Video downloaded successfully!'' @ nl @ nl
       @ ''Size: '' @ toFixed2MB bytes @ ''MB'' @ nl @ nl
       @ ''Now, please send me the *video title*:''"

definition authSuccessMsg :: "profile \<Rightarrow> string" where
  "authSuccessMsg r =
     nl @ checkMark @ '' *Authentication Successful!*'' @ nl
     @ nl @ ''Welcome, *'' @ pr_name r @ ''*!'' @ nl
     @ nl @ ''You can now upload videos to your YouTube account.'' @ nl
     @ nl @ outboxTray @ '' *To upload:*'' @ nl
     @ bullet @ '' Send me a video file'' @ nl
     @ bullet @ '' Send a Google Drive link'' @ nl
     @ bullet @ '' Use /upload command'' @ nl
     @ nl @ ''Your videos will be uploaded to:'' @ nl
     @ pr_email r @ nl
     @ ''      ''"

definition authFailedMsg :: "string \<Rightarrow> string" where
  "authFailedMsg err =
     crossMark @ '' Authentication failed: '' @ err @ nl @ nl @ ''Try /auth again.''"

text \<open>The success message reads \<open>result.url\<close>, a field the result of \<open>uploadVideo\<close> does not
  have, so the template prints \<open>undefined\<close> there.\<close>

definition uploadSuccessMsg :: "uploaded \<Rightarrow> string" where
  "uploadSuccessMsg r =
     nl @ checkMark @ '' *Upload Successful!*'' @ nl
     @ nl @ videoCamera @ '' *Title:* '' @ up_title r @ nl
     @ linkSign @ '' *URL:* '' @ ''undefined'' @ nl
     @ padlock @ '' *Privacy:* '' @ up_privacyStatus r @ nl
     @ nl @ ''The video is now processing on YouTube. It may take a few minutes to be available in full quality.'' @ nl
     @ ''        ''"

definition skipQuoted :: string where
  "skipQuoted = [CHR 0x22] @ ''skip'' @ [CHR 0x22]"

subsection \<open>Commands and buttons\<close>

text \<open>\<open>/upload\<close>.\<close>

definition cmd_upload :: "env \<Rightarrow> int \<Rightarrow> session \<Rightarrow> world \<Rightarrow> session \<times> world" where
  "cmd_upload e userId s w =
     (case checkAuth e userId w of
        (isAuth, w1) \<Rightarrow>
          if \<not> isAuth then (s, emit (Reply authRequiredMsg) w1)
          else (s\<lparr>step := AwaitingVideo\<rparr>, emit (Reply uploadMsg) w1))"

text \<open>\<open>/cancel\<close>: the entry of the user is replaced by a fresh one.\<close>

definition cmd_cancel :: "env \<Rightarrow> session \<Rightarrow> world \<Rightarrow> session \<times> world" where
  "cmd_cancel e s w =
     (let w1 = (if truthy (filePath s) then cleanup (filePath s) w else w)
      in (\<lparr>step = Idle, videoInfo = emptyVideoInfo, filePath = None, authStep = None,
           lastActivity = now e, isAdmin = isAdmin s\<rparr>,
          emit (Reply (checkMark @ '' Operation cancelled.'')) w1))"

text \<open>The buttons \<open>cancel_auth\<close> and \<open>cancel\<close>.\<close>

definition action_cancel_auth :: "session \<Rightarrow> world \<Rightarrow> session \<times> world" where
  "action_cancel_auth s w =
     (s\<lparr>authStep := None\<rparr>,
      emit (EditMessageText ''Authentication cancelled.'') (emit AnswerCbQuery w))"

definition action_cancel :: "session \<Rightarrow> world \<Rightarrow> session \<times> world" where
  "action_cancel s w =
     (s\<lparr>step := Idle\<rparr>,
      emit (EditMessageText ''Operation cancelled.'') (emit AnswerCbQuery w))"

text \<open>The three privacy buttons answer the callback query and call \<open>setPrivacy\<close>.\<close>

definition setPrivacy :: "string \<Rightarrow> session \<Rightarrow> world \<Rightarrow> session \<times> world" where
  "setPrivacy privacy s w =
     (s\<lparr>videoInfo := (videoInfo s)\<lparr>privacyStatus := Some privacy\<rparr>, step := AwaitingTags\<rparr>,
      emit (EditMessageText
              (''Privacy set to: *'' @ privacy @ ''*'' @ nl @ nl
                 @ ''Now, send me tags (comma-separated, or type '' @ skipQuoted @ ''):''))
        (emit AnswerCbQuery w))"

subsection \<open>Media\<close>

text \<open>A Telegram video or document, as far as the source reads it.\<close>

record attachment =
  file_id :: string
  file_size :: "nat option"
  file_name :: "string option"
  mime_type :: "string option"

datatype attachmentType = Video | Document

definition handleVideoFile ::
  "env \<Rightarrow> config \<Rightarrow> int \<Rightarrow> attachment \<Rightarrow> attachmentType \<Rightarrow> session \<Rightarrow> world
     \<Rightarrow> session \<times> world" where
  "handleVideoFile e cfg userId file type s w =
     (if step s \<noteq> AwaitingVideo then (s, emit (Reply uploadFirstMsg) w)
      else (case checkAuth e userId w of
        (isAuth, w1) \<Rightarrow>
          if \<not> isAuth then (s, emit (Reply pleaseAuthMsg) w1)
          else if (case file_size file of None \<Rightarrow> False | Some n \<Rightarrow> int n > maxSize cfg)
          then (s, emit (Reply (tooLargeMsg cfg (the (file_size file)))) w1)
          else
            (let fileName =
                   (case type of
                      Video \<Rightarrow> ''video_'' @ file_id file @ ''.mp4''
                    | Document \<Rightarrow> orElse (file_name file) (''file_'' @ file_id file));
                 extension = getFileExtension fileName
             in if \<not> isValidExtension extension
                then (s, emit (Reply (unsupportedMsg extension)) w1)
                else
                  (let w2 = emit (GetFileLink (file_id file))
                              (emit (Reply (inboxTray @ '' Downloading video from Telegram...'')) w1)
                   in case getFileLink e (file_id file) of
                        Inl m \<Rightarrow>
                          (s\<lparr>step := Idle\<rparr>, emit (Reply (crossMark @ '' Error: '' @ m)) w2)
                      | Inr href \<Rightarrow>
                          (case downloadTelegramFile e cfg href fileName w2 of
                             (Failed err, w3) \<Rightarrow>
                               (s\<lparr>step := Idle\<rparr>, emit (Reply (downloadFailedMsg err)) w3)
                           | (Ok d, w3) \<Rightarrow>
                               (s\<lparr>filePath := Some (dl_filePath d),
                                  videoInfo := emptyVideoInfo
                                    \<lparr>mimeType := Some (dl_mimeType d),
                                     vi_size := Some (dl_size d)\<rparr>,
                                  step := AwaitingTitle\<rparr>,
                                emit (Reply (downloadedMsg (dl_size d))) w3))))))"

definition on_video ::
  "env \<Rightarrow> config \<Rightarrow> int \<Rightarrow> attachment \<Rightarrow> session \<Rightarrow> world \<Rightarrow> session \<times> world" where
  "on_video e cfg userId video s w = handleVideoFile e cfg userId video Video s w"

definition on_document ::
  "env \<Rightarrow> config \<Rightarrow> int \<Rightarrow> attachment \<Rightarrow> session \<Rightarrow> world \<Rightarrow> session \<times> world" where
  "on_document e cfg userId doc s w =
     (if (case mime_type doc of None \<Rightarrow> False | Some m \<Rightarrow> m \<noteq> [] \<and> startsWith m ''video/'')
      then handleVideoFile e cfg userId doc Document s w
      else (s, emit (Reply (crossMark
              @ '' Please send a video file. Supported formats: MP4, MKV, AVI, MOV, WMV'')) w))"

subsection \<open>Links\<close>

definition handleUrl ::
  "env \<Rightarrow> config \<Rightarrow> string \<Rightarrow> int \<Rightarrow> session \<Rightarrow> world \<Rightarrow> session \<times> world" where
  "handleUrl e cfg url userId s w =
     (if step s \<noteq> AwaitingVideo then (s, emit (Reply uploadFirstMsg) w)
      else (case checkAuth e userId w of
        (isAuth, w1) \<Rightarrow>
          if \<not> isAuth then (s, emit (Reply pleaseAuthMsg) w1)
          else
            (let w2 = emit (Reply (linkSign @ '' Processing link...'')) w1;
                 download =
                   (if includes_str url ''drive.google.com''
                    then downloadGoogleDrive e cfg url
                           (Some (''gdrive_'' @ toString (now e) @ ''.mp4''))
                           (emit (Reply (inboxTray @ '' Downloading from Google Drive...'')) w2)
                    else downloadDirectUrl e cfg url
                           (Some (''url_'' @ toString (now e) @ ''.mp4''))
                           (emit (Reply (inboxTray @ '' Downloading from URL...'')) w2))
             in case download of
                  (Failed err, w3) \<Rightarrow>
                    (s\<lparr>step := Idle\<rparr>, emit (Reply (downloadFailedMsg err)) w3)
                | (Ok d, w3) \<Rightarrow>
                    (s\<lparr>filePath := Some (dl_filePath d),
                       videoInfo := emptyVideoInfo
                         \<lparr>mimeType := Some (dl_mimeType d), vi_size := Some (dl_size d)\<rparr>,
                       step := AwaitingTitle\<rparr>,
                     emit (Reply (downloadedMsg (dl_size d))) w3))))"

subsection \<open>Text\<close>

definition handleAuthCode ::
  "env \<Rightarrow> string \<Rightarrow> int \<Rightarrow> session \<Rightarrow> world \<Rightarrow> session \<times> world" where
  "handleAuthCode e code userId s w =
     (case handleAuthCallback e code userId
             (emit (Reply (lockAndKey @ '' Processing authorization code...'')) w) of
        (Ok r, w1) \<Rightarrow> (s\<lparr>authStep := None\<rparr>, emit (Reply (authSuccessMsg r)) w1)
      | (Failed err, w1) \<Rightarrow> (s\<lparr>authStep := None\<rparr>, emit (Reply (authFailedMsg err)) w1))"

definition handleTitle :: "string \<Rightarrow> session \<Rightarrow> world \<Rightarrow> session \<times> world" where
  "handleTitle text s w =
     (s\<lparr>videoInfo := (videoInfo s)\<lparr>title := Some text\<rparr>, step := AwaitingDescription\<rparr>,
      emit (Reply (''Great! Now send me the *video description* (or type ''
                     @ skipQuoted @ ''):'')) w)"

definition handleDescription :: "string \<Rightarrow> session \<Rightarrow> world \<Rightarrow> session \<times> world" where
  "handleDescription text s w =
     ((if toLowerCase text \<noteq> ''skip''
       then s\<lparr>videoInfo := (videoInfo s)\<lparr>description := Some text\<rparr>\<rparr> else s)
        \<lparr>step := AwaitingPrivacy\<rparr>,
      emit (Reply ''Choose privacy setting:'') w)"

text \<open>
  \<open>handleTags\<close> awaits \<open>uploadVideo\<close> inside \<open>try\<close>, answers in \<open>try\<close> or in \<open>catch\<close>, and
  resets the session in \<open>finally\<close>. \<open>handleTags_settle\<close> is everything after the awaited
  call, for each way the call can end: it returned a result, or it threw. \<open>uploadVideo\<close>
  itself catches whatever its body throws, so \<open>handleTags\<close> only ever meets \<open>Returned\<close>;
  the \<open>catch\<close> branch is modelled all the same.
\<close>

datatype 'a outcome = Returned 'a | Threw string

definition handleTags_settle ::
  "uploaded result outcome \<Rightarrow> session \<Rightarrow> world \<Rightarrow> session \<times> world" where
  "handleTags_settle out s w =
     (let w1 = (case out of
                  Returned (Ok r) \<Rightarrow> emit (Reply (uploadSuccessMsg r)) w
                | Returned (Failed err) \<Rightarrow> emit (Reply (crossMark @ '' Upload failed: '' @ err)) w
                | Threw m \<Rightarrow> emit (Reply (crossMark @ '' Upload error: '' @ m)) w);
          w2 = (if truthy (filePath s) then cleanup (filePath s) w1 else w1)
      in (s\<lparr>step := Idle, videoInfo := emptyVideoInfo, filePath := None\<rparr>, w2))"

definition handleTags ::
  "env \<Rightarrow> string \<Rightarrow> int \<Rightarrow> session \<Rightarrow> world \<Rightarrow> session \<times> world" where
  "handleTags e text userId s w =
     (let s1 = (if toLowerCase text \<noteq> ''skip''
                then s\<lparr>videoInfo := (videoInfo s)\<lparr>tags := Some text\<rparr>\<rparr> else s)
                 \<lparr>step := Uploading\<rparr>
      in case uploadVideo e userId (videoInfo s1)
                (emit (Reply (rocket @ '' Starting upload to YouTube...'')) w) of
           (result, w1) \<Rightarrow> handleTags_settle (Returned result) s1 w1)"

text \<open>The handler of text messages: the authorization code first, then the step.\<close>

definition on_text ::
  "env \<Rightarrow> config \<Rightarrow> int \<Rightarrow> string \<Rightarrow> session \<Rightarrow> world \<Rightarrow> session \<times> world" where
  "on_text e cfg userId message s w =
     (let text = trim message
      in if authStep s = Some AwaitingCode then handleAuthCode e text userId s w
         else (case step s of
                 AwaitingTitle \<Rightarrow> handleTitle text s w
               | AwaitingDescription \<Rightarrow> handleDescription text s w
               | AwaitingTags \<Rightarrow> handleTags e text userId s w
               | _ \<Rightarrow>
                   if isUrl e text then handleUrl e cfg text userId s w
                   else if step s = Idle
                   then (s, emit (Reply (''Send me a video file or link to upload.'' @ nl
                                  @ ''Use /upload to start the process or /help for more info.'')) w)
                   else (s, w)))"

section \<open>Properties\<close>

subsection \<open>Vocabulary of the statements\<close>

text \<open>The calls that start an acquisition: resolving a Telegram file, and any HTTP request
  of the downloader.\<close>

fun isAcquisition :: "event \<Rightarrow> bool" where
  "isAcquisition (GetFileLink i) = True"
| "isAcquisition (HttpHead u) = True"
| "isAcquisition (HttpGet u) = True"
| "isAcquisition ev = False"

text \<open>A URL has the shape of a pattern when the pattern's literal text stands somewhere in
  it, right before a character other than the one the group stops at.\<close>

definition hasShape :: "string \<Rightarrow> string \<times> char \<Rightarrow> bool" where
  "hasShape url p = (\<exists>pre c rest. url = pre @ fst p @ c # rest \<and> c \<noteq> snd p)"

subsection \<open>A concrete scenario\<close>

text \<open>An environment, a configuration, a world and a session to run the handlers on: the
  default limits, an empty scratch directory, no token file, every remote call answering.\<close>

definition sampleEnv :: env where
  "sampleEnv =
     \<lparr>now = 1700000000000,
      pathJoin = (\<lambda>dir name. ''temp/'' @ name),
      basename = (\<lambda>path. drop 5 path),
      isUrl = (\<lambda>s. startsWith s ''http''),
      httpGet = (\<lambda>url. Stream (Some ''video/mp4'') (Completed 1000)),
      getFileLink = (\<lambda>i. Inr (''https://api.telegram.org/file/'' @ i)),
      channelsList = (\<lambda>tokens. True),
      videosInsert = (\<lambda>body path mime. Inl ''quotaExceeded''),
      getToken = (\<lambda>code. Inr ''token-set''),
      userinfoGet = (\<lambda>tokens. Inr \<lparr>ui_email = ''ann@example.org'', ui_name = ''Ann'',
                                      ui_picture = ''ann.png''\<rparr>)\<rparr>"

definition sampleConfig :: config where
  "sampleConfig = \<lparr>maxSize = files_maxSize None, maxSizeMB = ''50'', adminIds = [42]\<rparr>"

definition sampleWorld :: world where
  "sampleWorld = \<lparr>files = Map.empty, tokensFile = None, trace = []\<rparr>"

definition sampleSession :: session where
  "sampleSession =
     \<lparr>step = Idle, videoInfo = emptyVideoInfo, filePath = None, authStep = None,
      lastActivity = 0, isAdmin = False\<rparr>"

text \<open>The same world after user 7 has authenticated.\<close>

definition authedWorld :: world where
  "authedWorld =
     sampleWorld\<lparr>tokensFile :=
       Some (Map.empty(7 \<mapsto> \<lparr>cr_tokens = ''token-set'', cr_savedAt = 1, cr_userId = 7\<rparr>))\<rparr>"

text \<open>User 7 in the middle of a flow: a download of 1000 bytes is in scratch storage, the
  title is awaited, and an authorization code is awaited too.\<close>

definition downloadedSession :: session where
  "downloadedSession =
     \<lparr>step = AwaitingTitle,
      videoInfo = emptyVideoInfo\<lparr>mimeType := Some ''video/mp4'', vi_size := Some 1000\<rparr>,
      filePath = Some ''temp/url_1700000000000.mp4'',
      authStep = Some AwaitingCode, lastActivity = 5, isAdmin = True\<rparr>"

definition downloadedWorld :: world where
  "downloadedWorld = authedWorld\<lparr>files := [''temp/url_1700000000000.mp4'' \<mapsto> 1000]\<rparr>"

text \<open>A record ready for \<open>uploadVideo\<close>: a title of 150 characters, raw tags with blanks and
  an empty entry, no description, privacy or category.\<close>

definition sampleVideo :: videoInfo where
  "sampleVideo =
     \<lparr>title = Some (replicate 150 (CHR ''a'')), description = None,
      tags = Some '' cats, dogs ,, birds '', privacyStatus = None, categoryId = None,
      mimeType = Some ''video/mp4'', vi_size = Some 1000,
      vi_filePath = Some ''temp/url_1700000000000.mp4''\<rparr>"

subsection \<open>Drive links\<close>

text \<open>The matcher of one pattern finds nothing exactly when the URL does not have the
  pattern's shape, and what it finds stands in the URL right after the pattern's literal
  text, is not empty and runs up to the stop character or the end.\<close>

lemma startsWith_iff: "startsWith s p \<longleftrightarrow> (\<exists>r. s = p @ r)"
  by (induction s p rule: startsWith.induct) auto

lemma startsWith_drop: "startsWith s p \<Longrightarrow> s = p @ drop (length p) s"
  by (auto simp: startsWith_iff)

lemma matchGroup_here:
  "(startsWith s lit \<and> takeWhile (\<lambda>x. x \<noteq> stop) (drop (length lit) s) \<noteq> [])
     \<longleftrightarrow> (\<exists>c rest. s = lit @ c # rest \<and> c \<noteq> stop)"
proof
  assume h: "startsWith s lit \<and> takeWhile (\<lambda>x. x \<noteq> stop) (drop (length lit) s) \<noteq> []"
  then obtain r where r: "s = lit @ r" by (auto simp: startsWith_iff)
  with h have "takeWhile (\<lambda>x. x \<noteq> stop) r \<noteq> []" by simp
  then obtain c rest where "r = c # rest" "c \<noteq> stop"
    by (cases r) (auto split: if_splits)
  with r show "\<exists>c rest. s = lit @ c # rest \<and> c \<noteq> stop" by blast
next
  assume "\<exists>c rest. s = lit @ c # rest \<and> c \<noteq> stop"
  then show "startsWith s lit \<and> takeWhile (\<lambda>x. x \<noteq> stop) (drop (length lit) s) \<noteq> []"
    by (auto simp: startsWith_iff)
qed

lemma matchGroup_None_iff:
  "matchGroup s lit stop = None
     \<longleftrightarrow> \<not> (\<exists>pre c rest. s = pre @ lit @ c # rest \<and> c \<noteq> stop)"
proof (induction s)
  case Nil
  then show ?case by simp
next
  case (Cons a s)
  show ?case
  proof (cases "\<exists>c rest. a # s = lit @ c # rest \<and> c \<noteq> stop")
    case True
    then have "startsWith (a # s) lit
        \<and> takeWhile (\<lambda>x. x \<noteq> stop) (drop (length lit) (a # s)) \<noteq> []"
      using matchGroup_here [of "a # s" lit stop] by blast
    then have "matchGroup (a # s) lit stop \<noteq> None"
      by (simp only: matchGroup.simps if_True) simp
    moreover from True have "\<exists>pre c rest. a # s = pre @ lit @ c # rest \<and> c \<noteq> stop"
      by (metis append_Nil)
    ultimately show ?thesis by blast
  next
    case False
    then have "\<not> (startsWith (a # s) lit
        \<and> takeWhile (\<lambda>x. x \<noteq> stop) (drop (length lit) (a # s)) \<noteq> [])"
      using matchGroup_here [of "a # s" lit stop] by blast
    then have eq: "matchGroup (a # s) lit stop = matchGroup s lit stop"
      by (simp only: matchGroup.simps if_False)
    have "(\<exists>pre c rest. a # s = pre @ lit @ c # rest \<and> c \<noteq> stop)
            \<longleftrightarrow> (\<exists>pre c rest. s = pre @ lit @ c # rest \<and> c \<noteq> stop)"
    proof
      assume "\<exists>pre c rest. a # s = pre @ lit @ c # rest \<and> c \<noteq> stop"
      then obtain pre c rest where p: "a # s = pre @ lit @ c # rest" "c \<noteq> stop" by blast
      with False have "pre \<noteq> []" by auto
      then obtain pre' where "pre = a # pre'" using p by (cases pre) auto
      with p show "\<exists>pre c rest. s = pre @ lit @ c # rest \<and> c \<noteq> stop" by auto
    next
      assume "\<exists>pre c rest. s = pre @ lit @ c # rest \<and> c \<noteq> stop"
      then obtain pre c rest where "s = pre @ lit @ c # rest" "c \<noteq> stop" by blast
      then have "a # s = (a # pre) @ lit @ c # rest" by simp
      then show "\<exists>pre c rest. a # s = pre @ lit @ c # rest \<and> c \<noteq> stop"
        using \<open>c \<noteq> stop\<close> by blast
    qed
    with eq Cons.IH show ?thesis by simp
  qed
qed

lemma matchGroup_Some:
  "matchGroup s lit stop = Some g \<Longrightarrow>
     \<exists>pre rest. s = pre @ lit @ g @ rest \<and> g \<noteq> [] \<and> stop \<notin> set g
        \<and> (rest = [] \<or> hd rest = stop)"
proof (induction s)
  case Nil
  then show ?case by simp
next
  case (Cons a s)
  let ?d = "drop (length lit) (a # s)"
  let ?t = "takeWhile (\<lambda>x. x \<noteq> stop) ?d"
  show ?case
  proof (cases "startsWith (a # s) lit \<and> ?t \<noteq> []")
    case True
    with Cons.prems have g: "g = ?t" by simp
    from True have s: "a # s = lit @ ?d" using startsWith_drop by blast
    have d: "?d = ?t @ dropWhile (\<lambda>x. x \<noteq> stop) ?d" by simp
    have stop: "stop \<notin> set ?t" by (auto dest: set_takeWhileD)
    have rest: "dropWhile (\<lambda>x. x \<noteq> stop) ?d = [] \<or> hd (dropWhile (\<lambda>x. x \<noteq> stop) ?d) = stop"
      using hd_dropWhile [of "\<lambda>x. x \<noteq> stop" ?d] by auto
    have "a # s = [] @ lit @ g @ dropWhile (\<lambda>x. x \<noteq> stop) ?d"
      using s d g by (metis append_Nil)
    with True g stop rest show ?thesis by blast
  next
    case False
    with Cons.prems have "matchGroup s lit stop = Some g" by auto
    from Cons.IH [OF this] obtain pre rest where
      "s = pre @ lit @ g @ rest" "g \<noteq> []" "stop \<notin> set g" "rest = [] \<or> hd rest = stop"
      by blast
    then have "a # s = (a # pre) @ lit @ g @ rest" by simp
    then show ?thesis
      using \<open>g \<noteq> []\<close> \<open>stop \<notin> set g\<close> \<open>rest = [] \<or> hd rest = stop\<close> by blast
  qed
qed


lemma matchGroup_None_shape:
  "matchGroup url lit stop = None \<longleftrightarrow> \<not> hasShape url (lit, stop)"
  by (simp add: hasShape_def matchGroup_None_iff)

lemma firstMatch_None_iff:
  "firstMatch ps url = None \<longleftrightarrow> (\<forall>p \<in> set ps. \<not> hasShape url p)"
proof (induction ps)
  case Nil
  then show ?case by simp
next
  case (Cons p ps)
  obtain lit stop where p: "p = (lit, stop)" by (cases p)
  show ?case
  proof (cases "matchGroup url lit stop")
    case None
    then have "\<not> hasShape url p" using p matchGroup_None_shape by simp
    moreover have "firstMatch (p # ps) url = firstMatch ps url" using None p by simp
    ultimately show ?thesis using Cons.IH by simp
  next
    case (Some g)
    then have "hasShape url p" using p matchGroup_None_shape [of url lit stop] by simp
    moreover have "firstMatch (p # ps) url \<noteq> None" using Some p by simp
    ultimately show ?thesis by auto
  qed
qed

lemma firstMatch_Some:
  "firstMatch ps url = Some g \<Longrightarrow>
     \<exists>lit stop pre rest. (lit, stop) \<in> set ps \<and> url = pre @ lit @ g @ rest \<and> g \<noteq> []
        \<and> stop \<notin> set g \<and> (rest = [] \<or> hd rest = stop)"
proof (induction ps url rule: firstMatch.induct)
  case (1 url)
  then show ?case by simp
next
  case (2 lit stop ps url)
  show ?case
  proof (cases "matchGroup url lit stop")
    case None
    with 2 show ?thesis by fastforce
  next
    case (Some a)
    with "2.prems" have "matchGroup url lit stop = Some g" by simp
    from matchGroup_Some [OF this] show ?thesis by fastforce
  qed
qed

text \<open>A string without a character of the literal text has no match; a match is the
  leftmost one; and the loop over the table is the cascade of the four patterns in the
  order \<open>/d/\<close>, \<open>id=\<close>, \<open>/file/d/\<close>, \<open>drive.google.com/open?id=\<close>.\<close>

lemma matchGroup_without:
  assumes "c \<in> set lit" and "c \<notin> set s"
  shows "matchGroup s lit stop = None"
proof -
  have "\<not> (\<exists>pre x rest. s = pre @ lit @ x # rest \<and> x \<noteq> stop)"
  proof
    assume "\<exists>pre x rest. s = pre @ lit @ x # rest \<and> x \<noteq> stop"
    then obtain pre x rest where "s = pre @ lit @ x # rest" by blast
    then have "set lit \<subseteq> set s" by auto
    with assms show False by blast
  qed
  then show ?thesis using matchGroup_None_iff [of s lit stop] by blast
qed

lemma matchGroup_leftmost:
  "matchGroup s lit stop = Some g \<Longrightarrow>
     \<exists>pre rest. s = pre @ lit @ g @ rest \<and> g \<noteq> [] \<and> stop \<notin> set g
        \<and> (rest = [] \<or> hd rest = stop)
        \<and> (\<forall>pre' x rest'. s = pre' @ lit @ x # rest' \<and> x \<noteq> stop
              \<longrightarrow> length pre \<le> length pre')"
proof (induction s)
  case Nil
  then show ?case by simp
next
  case (Cons a s)
  let ?here = "startsWith (a # s) lit
                 \<and> takeWhile (\<lambda>x. x \<noteq> stop) (drop (length lit) (a # s)) \<noteq> []"
  show ?case
  proof (cases ?here)
    case True
    from matchGroup_Some [OF Cons.prems] obtain pre rest where
      "a # s = pre @ lit @ g @ rest" by blast
    from True Cons.prems
    have g: "g = takeWhile (\<lambda>x. x \<noteq> stop) (drop (length lit) (a # s))" by simp
    from True have s: "a # s = lit @ drop (length lit) (a # s)"
      using startsWith_drop by blast
    have "drop (length lit) (a # s)
            = g @ dropWhile (\<lambda>x. x \<noteq> stop) (drop (length lit) (a # s))"
      by (simp add: g)
    with s have eq: "a # s = [] @ lit @ g
                       @ dropWhile (\<lambda>x. x \<noteq> stop) (drop (length lit) (a # s))"
      by simp
    have g1: "g \<noteq> []" using True g by simp
    have g2: "stop \<notin> set g" unfolding g by (auto dest: set_takeWhileD)
    have g3: "dropWhile (\<lambda>x. x \<noteq> stop) (drop (length lit) (a # s)) = []
              \<or> hd (dropWhile (\<lambda>x. x \<noteq> stop) (drop (length lit) (a # s))) = stop"
      using hd_dropWhile [of "\<lambda>x. x \<noteq> stop" "drop (length lit) (a # s)"] by auto
    have g4: "\<forall>pre' x rest'. a # s = pre' @ lit @ x # rest' \<and> x \<noteq> stop
                \<longrightarrow> length ([] :: string) \<le> length pre'"
      by simp
    from eq g1 g2 g3 g4 show ?thesis by blast
  next
    case False
    then have "matchGroup (a # s) lit stop = matchGroup s lit stop"
      by (simp only: matchGroup.simps if_False)
    with Cons.prems have "matchGroup s lit stop = Some g" by simp
    from Cons.IH [OF this] obtain pre rest where p:
      "s = pre @ lit @ g @ rest" "g \<noteq> []" "stop \<notin> set g" "rest = [] \<or> hd rest = stop"
      "\<forall>pre' x rest'. s = pre' @ lit @ x # rest' \<and> x \<noteq> stop \<longrightarrow> length pre \<le> length pre'"
      by blast
    have first: "\<forall>pre' x rest'. a # s = pre' @ lit @ x # rest' \<and> x \<noteq> stop
                   \<longrightarrow> length (a # pre) \<le> length pre'"
    proof (intro allI impI)
      fix pre' x rest'
      assume h: "a # s = pre' @ lit @ x # rest' \<and> x \<noteq> stop"
      have "pre' \<noteq> []"
      proof
        assume "pre' = []"
        with h have "\<exists>c rest. a # s = lit @ c # rest \<and> c \<noteq> stop" by auto
        with False matchGroup_here [of "a # s" lit stop] show False by blast
      qed
      then obtain q where q: "pre' = a # q" using h by (cases pre') auto
      with h have "s = q @ lit @ x # rest' \<and> x \<noteq> stop" by simp
      with p(5) have "length pre \<le> length q" by blast
      with q show "length (a # pre) \<le> length pre'" by simp
    qed
    from p(1) have "a # s = (a # pre) @ lit @ g @ rest" by simp
    with p(2,3,4) first show ?thesis by blast
  qed
qed

lemma firstMatch_cascade:
  "firstMatch urlPatterns url =
     (case matchGroup url ''/d/'' (CHR ''/'') of
        Some g \<Rightarrow> Some g
      | None \<Rightarrow>
          (case matchGroup url ''id='' (CHR ''&'') of
             Some g \<Rightarrow> Some g
           | None \<Rightarrow>
               (case matchGroup url ''/file/d/'' (CHR ''/'') of
                  Some g \<Rightarrow> Some g
                | None \<Rightarrow> matchGroup url ''drive.google.com/open?id='' (CHR ''&''))))"
  by (simp add: urlPatterns_def split: option.splits)

lemma firstMatch_Some_explicit:
  assumes "firstMatch urlPatterns url = Some g"
  shows "\<exists>lit stop pre rest.
           (lit, stop) \<in> {(''/d/'', CHR ''/''), (''id='', CHR ''&''), (''/file/d/'', CHR ''/''),
                          (''drive.google.com/open?id='', CHR ''&'')}
           \<and> url = pre @ lit @ g @ rest \<and> g \<noteq> [] \<and> stop \<notin> set g
           \<and> (rest = [] \<or> hd rest = stop)"
proof -
  from firstMatch_Some [OF assms] obtain lit stop pre rest where
    "(lit, stop) \<in> set urlPatterns" "url = pre @ lit @ g @ rest" "g \<noteq> []" "stop \<notin> set g"
    "rest = [] \<or> hd rest = stop" by blast
  moreover from this(1)
  have "(lit, stop) \<in> {(''/d/'', CHR ''/''), (''id='', CHR ''&''), (''/file/d/'', CHR ''/''),
                         (''drive.google.com/open?id='', CHR ''&'')}"
    by (simp only: urlPatterns_def list.simps(15) set_empty2 empty_set)
  ultimately show ?thesis by (intro exI conjI)
qed

lemma firstMatch_None_explicit:
  "firstMatch urlPatterns url = None \<longleftrightarrow>
     \<not> hasShape url (''/d/'', CHR ''/'') \<and> \<not> hasShape url (''id='', CHR ''&'')
     \<and> \<not> hasShape url (''/file/d/'', CHR ''/'')
     \<and> \<not> hasShape url (''drive.google.com/open?id='', CHR ''&'')"
  unfolding firstMatch_None_iff by (simp add: urlPatterns_def)

lemma file_d_link:
  assumes "ident \<noteq> []" and "CHR ''/'' \<notin> set ident"
  shows "firstMatch urlPatterns (''https://drive.google.com/file/d/'' @ ident @ ''/view'')
           = Some ident"
proof -
  from assms have "takeWhile (\<lambda>x. x \<noteq> CHR ''/'') (ident @ ''/view'') = ident"
    by (auto simp: takeWhile_tail)
  with assms(1) show ?thesis by (simp add: urlPatterns_def)
qed

lemma open_id_link:
  assumes "ident \<noteq> []" and "CHR ''/'' \<notin> set ident" and "CHR ''&'' \<notin> set ident"
  shows "firstMatch urlPatterns (''https://drive.google.com/open?id='' @ ident) = Some ident"
proof -
  have none: "matchGroup ident ''/d/'' (CHR ''/'') = None"
    using assms(2) by (intro matchGroup_without [of "CHR ''/''"]) simp_all
  have whole: "takeWhile (\<lambda>x. x \<noteq> CHR ''&'') ident = ident"
    using assms(3) by (auto simp: takeWhile_eq_all_conv)
  from assms(1) show ?thesis by (simp add: urlPatterns_def none whole)
qed

lemma uc_id_link:
  assumes "ident \<noteq> []" and "CHR ''/'' \<notin> set ident" and "CHR ''&'' \<notin> set ident"
  shows "firstMatch urlPatterns (''https://drive.google.com/uc?id='' @ ident @ ''&export=download'')
           = Some ident"
proof -
  have "CHR ''/'' \<notin> set (ident @ ''&export=download'')" using assms(2) by simp
  then have none: "matchGroup (ident @ ''&export=download'') ''/d/'' (CHR ''/'') = None"
    by (intro matchGroup_without [of "CHR ''/''"]) simp_all
  have cut: "takeWhile (\<lambda>x. x \<noteq> CHR ''&'') (ident @ ''&export=download'') = ident"
    using assms(3) by (auto simp: takeWhile_tail)
  from assms(1) show ?thesis by (simp add: urlPatterns_def none cut)
qed

text \<open>
  Claim C5. For every URL, \<open>downloadGoogleDrive\<close> takes the identifier of the first of the
  four patterns that matches, tried in the order \<open>/d/\<close>, \<open>id=\<close>, \<open>/file/d/\<close>,
  \<open>drive.google.com/open?id=\<close>: the identifier is the leftmost non-empty run of characters
  up to the next \<open>/\<close> (for the two \<open>/d/\<close> patterns) or the next \<open>&\<close> (for the two \<open>id=\<close>
  patterns) that stands right after the pattern's text. It then returns what
  \<open>downloadDirectUrl\<close> returns on \<open>https://drive.google.com/uc?export=download&id=\<close>
  followed by the identifier. It finds no identifier exactly when the URL has none of the
  four shapes, and then it answers \<open>Invalid Google Drive URL format\<close> at once and leaves the
  world as it was, so no network call is made. Links of the forms \<open>/file/d/IDENT/view\<close>,
  \<open>open?id=IDENT\<close> and \<open>uc?id=IDENT&export=download\<close> give \<open>IDENT\<close>; where a link has both a
  \<open>/d/\<close> segment and an \<open>id=\<close> parameter the \<open>/d/\<close> segment wins, and of two \<open>id=\<close>
  parameters the first; \<open>https://drive.google.com/file/d/ABC123/view\<close> gives \<open>ABC123\<close>.
\<close>

theorem downloadGoogleDrive_shapes:
  "(firstMatch urlPatterns url = None \<longrightarrow>
      downloadGoogleDrive e cfg url fileName w = (Failed ''Invalid Google Drive URL format'', w))
   \<and> (\<forall>fileId. firstMatch urlPatterns url = Some fileId \<longrightarrow>
        downloadGoogleDrive e cfg url fileName w =
          downloadDirectUrl e cfg (''https://drive.google.com/uc?export=download&id='' @ fileId)
            (Some (orElse fileName (''gdrive_'' @ toString (now e) @ ''.mp4''))) w
        \<and> (\<exists>lit stop pre rest.
              (lit, stop) \<in> {(''/d/'', CHR ''/''), (''id='', CHR ''&''), (''/file/d/'', CHR ''/''),
                             (''drive.google.com/open?id='', CHR ''&'')}
              \<and> url = pre @ lit @ fileId @ rest \<and> fileId \<noteq> [] \<and> stop \<notin> set fileId
              \<and> (rest = [] \<or> hd rest = stop)))
   \<and> (firstMatch urlPatterns url = None \<longleftrightarrow>
        \<not> hasShape url (''/d/'', CHR ''/'') \<and> \<not> hasShape url (''id='', CHR ''&'')
        \<and> \<not> hasShape url (''/file/d/'', CHR ''/'')
        \<and> \<not> hasShape url (''drive.google.com/open?id='', CHR ''&''))
   \<and> firstMatch urlPatterns url =
       (case matchGroup url ''/d/'' (CHR ''/'') of
          Some g \<Rightarrow> Some g
        | None \<Rightarrow>
            (case matchGroup url ''id='' (CHR ''&'') of
               Some g \<Rightarrow> Some g
             | None \<Rightarrow>
                 (case matchGroup url ''/file/d/'' (CHR ''/'') of
                    Some g \<Rightarrow> Some g
                  | None \<Rightarrow> matchGroup url ''drive.google.com/open?id='' (CHR ''&''))))
   \<and> (\<forall>lit stop.
         (matchGroup url lit stop = None \<longleftrightarrow> \<not> hasShape url (lit, stop))
         \<and> (\<forall>g. matchGroup url lit stop = Some g \<longrightarrow>
               (\<exists>pre rest. url = pre @ lit @ g @ rest \<and> g \<noteq> [] \<and> stop \<notin> set g
                  \<and> (rest = [] \<or> hd rest = stop)
                  \<and> (\<forall>pre' x rest'. url = pre' @ lit @ x # rest' \<and> x \<noteq> stop
                        \<longrightarrow> length pre \<le> length pre'))))
   \<and> (\<forall>ident. ident \<noteq> [] \<and> CHR ''/'' \<notin> set ident \<longrightarrow>
        firstMatch urlPatterns (''https://drive.google.com/file/d/'' @ ident @ ''/view'')
          = Some ident)
   \<and> (\<forall>ident. ident \<noteq> [] \<and> CHR ''/'' \<notin> set ident \<and> CHR ''&'' \<notin> set ident \<longrightarrow>
        firstMatch urlPatterns (''https://drive.google.com/open?id='' @ ident) = Some ident
        \<and> firstMatch urlPatterns
             (''https://drive.google.com/uc?id='' @ ident @ ''&export=download'') = Some ident)
   \<and> firstMatch urlPatterns ''https://drive.google.com/file/d/ABC123/view?id=XYZ''
       = Some ''ABC123''
   \<and> firstMatch urlPatterns ''https://drive.google.com/uc?id=A&next=drive.google.com/open?id=B''
       = Some ''A''
   \<and> firstMatch urlPatterns ''https://drive.google.com/open?id=XYZ'' = Some ''XYZ''
   \<and> firstMatch urlPatterns ''https://drive.google.com/file/d/ABC123/view'' = Some ''ABC123''"
proof -
  have c1: "firstMatch urlPatterns url = None \<longrightarrow>
      downloadGoogleDrive e cfg url fileName w = (Failed ''Invalid Google Drive URL format'', w)"
    by (simp add: downloadGoogleDrive_def)
  have c2: "\<forall>fileId. firstMatch urlPatterns url = Some fileId \<longrightarrow>
        downloadGoogleDrive e cfg url fileName w =
          downloadDirectUrl e cfg (''https://drive.google.com/uc?export=download&id='' @ fileId)
            (Some (orElse fileName (''gdrive_'' @ toString (now e) @ ''.mp4''))) w
        \<and> (\<exists>lit stop pre rest.
              (lit, stop) \<in> {(''/d/'', CHR ''/''), (''id='', CHR ''&''), (''/file/d/'', CHR ''/''),
                             (''drive.google.com/open?id='', CHR ''&'')}
              \<and> url = pre @ lit @ fileId @ rest \<and> fileId \<noteq> [] \<and> stop \<notin> set fileId
              \<and> (rest = [] \<or> hd rest = stop))"
  proof (intro allI impI conjI)
    fix fileId assume h: "firstMatch urlPatterns url = Some fileId"
    then show "downloadGoogleDrive e cfg url fileName w =
          downloadDirectUrl e cfg (''https://drive.google.com/uc?export=download&id='' @ fileId)
            (Some (orElse fileName (''gdrive_'' @ toString (now e) @ ''.mp4''))) w"
      by (simp add: downloadGoogleDrive_def)
    from h show "\<exists>lit stop pre rest.
              (lit, stop) \<in> {(''/d/'', CHR ''/''), (''id='', CHR ''&''), (''/file/d/'', CHR ''/''),
                             (''drive.google.com/open?id='', CHR ''&'')}
              \<and> url = pre @ lit @ fileId @ rest \<and> fileId \<noteq> [] \<and> stop \<notin> set fileId
              \<and> (rest = [] \<or> hd rest = stop)"
      by (rule firstMatch_Some_explicit)
  qed
  have c5: "\<forall>lit stop.
         (matchGroup url lit stop = None \<longleftrightarrow> \<not> hasShape url (lit, stop))
         \<and> (\<forall>g. matchGroup url lit stop = Some g \<longrightarrow>
               (\<exists>pre rest. url = pre @ lit @ g @ rest \<and> g \<noteq> [] \<and> stop \<notin> set g
                  \<and> (rest = [] \<or> hd rest = stop)
                  \<and> (\<forall>pre' x rest'. url = pre' @ lit @ x # rest' \<and> x \<noteq> stop
                        \<longrightarrow> length pre \<le> length pre')))"
  proof (intro allI conjI impI)
    fix lit stop
    show "matchGroup url lit stop = None \<longleftrightarrow> \<not> hasShape url (lit, stop)"
      by (rule matchGroup_None_shape)
  next
    fix lit stop g assume "matchGroup url lit stop = Some g"
    then show "\<exists>pre rest. url = pre @ lit @ g @ rest \<and> g \<noteq> [] \<and> stop \<notin> set g
                  \<and> (rest = [] \<or> hd rest = stop)
                  \<and> (\<forall>pre' x rest'. url = pre' @ lit @ x # rest' \<and> x \<noteq> stop
                        \<longrightarrow> length pre \<le> length pre')"
      by (rule matchGroup_leftmost)
  qed
  have c6: "\<forall>ident. ident \<noteq> [] \<and> CHR ''/'' \<notin> set ident \<longrightarrow>
        firstMatch urlPatterns (''https://drive.google.com/file/d/'' @ ident @ ''/view'')
          = Some ident"
  proof (intro allI impI)
    fix ident :: string assume "ident \<noteq> [] \<and> CHR ''/'' \<notin> set ident"
    then have "ident \<noteq> []" "CHR ''/'' \<notin> set ident" by blast+
    then show "firstMatch urlPatterns (''https://drive.google.com/file/d/'' @ ident @ ''/view'')
                 = Some ident"
      by (rule file_d_link)
  qed
  have c7: "\<forall>ident. ident \<noteq> [] \<and> CHR ''/'' \<notin> set ident \<and> CHR ''&'' \<notin> set ident \<longrightarrow>
        firstMatch urlPatterns (''https://drive.google.com/open?id='' @ ident) = Some ident
        \<and> firstMatch urlPatterns
             (''https://drive.google.com/uc?id='' @ ident @ ''&export=download'') = Some ident"
  proof (intro allI impI)
    fix ident :: string
    assume "ident \<noteq> [] \<and> CHR ''/'' \<notin> set ident \<and> CHR ''&'' \<notin> set ident"
    then have h: "ident \<noteq> []" "CHR ''/'' \<notin> set ident" "CHR ''&'' \<notin> set ident" by blast+
    from open_id_link [OF h] uc_id_link [OF h]
    show "firstMatch urlPatterns (''https://drive.google.com/open?id='' @ ident) = Some ident
        \<and> firstMatch urlPatterns
             (''https://drive.google.com/uc?id='' @ ident @ ''&export=download'') = Some ident"
      by (rule conjI)
  qed
  have c8: "firstMatch urlPatterns ''https://drive.google.com/file/d/ABC123/view?id=XYZ''
       = Some ''ABC123''"
    by (simp add: urlPatterns_def)
  have c9: "firstMatch urlPatterns
              ''https://drive.google.com/uc?id=A&next=drive.google.com/open?id=B'' = Some ''A''"
    by (simp add: urlPatterns_def)
  have c10: "firstMatch urlPatterns ''https://drive.google.com/open?id=XYZ'' = Some ''XYZ''"
    by (simp add: urlPatterns_def)
  have c11: "firstMatch urlPatterns ''https://drive.google.com/file/d/ABC123/view''
               = Some ''ABC123''"
    by (simp add: urlPatterns_def)
  show ?thesis
    by (intro conjI c1 c2 firstMatch_None_explicit firstMatch_cascade c5 c6 c7 c8 c9 c10 c11)
qed

theorem downloadGoogleDrive_shapes_witness:
  "downloadGoogleDrive sampleEnv sampleConfig ''https://drive.google.com/drive/my-drive'' None
      sampleWorld
     = (Failed ''Invalid Google Drive URL format'', sampleWorld)
   \<and> downloadGoogleDrive sampleEnv sampleConfig ''https://drive.google.com/file/d/ABC123/view''
        None sampleWorld
     = downloadDirectUrl sampleEnv sampleConfig
         ''https://drive.google.com/uc?export=download&id=ABC123''
         (Some ''gdrive_1700000000000.mp4'') sampleWorld
   \<and> downloadGoogleDrive sampleEnv sampleConfig ''https://drive.google.com/open?id=XYZ''
        None sampleWorld
     = downloadDirectUrl sampleEnv sampleConfig
         ''https://drive.google.com/uc?export=download&id=XYZ''
         (Some ''gdrive_1700000000000.mp4'') sampleWorld"
proof -
  let ?bad = "''https://drive.google.com/drive/my-drive''"
  let ?file = "''https://drive.google.com/file/d/ABC123/view''"
  let ?open = "''https://drive.google.com/open?id=XYZ''"
  have none: "firstMatch urlPatterns ?bad = None"
    by (simp add: urlPatterns_def)
  have some: "firstMatch urlPatterns ?file = Some ''ABC123''"
    by (simp add: urlPatterns_def)
  have other: "firstMatch urlPatterns ?open = Some ''XYZ''"
    by (simp add: urlPatterns_def)
  have name: "toString (now sampleEnv) = ''1700000000000''"
    by (simp add: sampleEnv_def digit_def toString.simps)
  note bad = downloadGoogleDrive_shapes
               [of ?bad sampleEnv sampleConfig None sampleWorld, THEN conjunct1]
  note byFile = downloadGoogleDrive_shapes
               [of ?file sampleEnv sampleConfig None sampleWorld, THEN conjunct2, THEN conjunct1]
  note opn = downloadGoogleDrive_shapes
               [of ?open sampleEnv sampleConfig None sampleWorld, THEN conjunct2, THEN conjunct1]
  from bad none have a: "downloadGoogleDrive sampleEnv sampleConfig ?bad None sampleWorld
     = (Failed ''Invalid Google Drive URL format'', sampleWorld)"
    by blast
  from byFile some have "downloadGoogleDrive sampleEnv sampleConfig ?file None sampleWorld
     = downloadDirectUrl sampleEnv sampleConfig
         (''https://drive.google.com/uc?export=download&id='' @ ''ABC123'')
         (Some (orElse None (''gdrive_'' @ toString (now sampleEnv) @ ''.mp4''))) sampleWorld"
    by blast
  then have b: "downloadGoogleDrive sampleEnv sampleConfig ?file None sampleWorld
     = downloadDirectUrl sampleEnv sampleConfig
         ''https://drive.google.com/uc?export=download&id=ABC123''
         (Some ''gdrive_1700000000000.mp4'') sampleWorld"
    by (simp add: name orElse_def)
  from opn other have "downloadGoogleDrive sampleEnv sampleConfig ?open None sampleWorld
     = downloadDirectUrl sampleEnv sampleConfig
         (''https://drive.google.com/uc?export=download&id='' @ ''XYZ'')
         (Some (orElse None (''gdrive_'' @ toString (now sampleEnv) @ ''.mp4''))) sampleWorld"
    by blast
  then have c: "downloadGoogleDrive sampleEnv sampleConfig ?open None sampleWorld
     = downloadDirectUrl sampleEnv sampleConfig
         ''https://drive.google.com/uc?export=download&id=XYZ''
         (Some ''gdrive_1700000000000.mp4'') sampleWorld"
    by (simp add: name orElse_def)
  from a b c show ?thesis by (intro conjI)
qed

subsection \<open>File extensions\<close>

text \<open>Lower-casing leaves a character alone or gives a lower-case letter, so it neither
  makes nor removes a dot or a slash.\<close>

lemma toLowerChar_cases: "toLowerChar c = c \<or> toLowerChar c \<in> set lowerCaseLetters"
proof (cases "map_of (zip upperCaseLetters lowerCaseLetters) c")
  case None
  then show ?thesis by (simp add: toLowerChar_def)
next
  case (Some l)
  then have "(c, l) \<in> set (zip upperCaseLetters lowerCaseLetters)"
    by (rule map_of_SomeD)
  then have "l \<in> set lowerCaseLetters" by (rule set_zip_rightD)
  with Some show ?thesis by (simp add: toLowerChar_def)
qed

lemma toLowerChar_dot: "toLowerChar c = CHR ''.'' \<longleftrightarrow> c = CHR ''.''"
proof
  assume h: "toLowerChar c = CHR ''.''"
  have "CHR ''.'' \<notin> set lowerCaseLetters" by (simp add: lowerCaseLetters_def)
  with h toLowerChar_cases [of c] show "c = CHR ''.''" by auto
next
  assume "c = CHR ''.''"
  then show "toLowerChar c = CHR ''.''"
    by (simp add: toLowerChar_def upperCaseLetters_def lowerCaseLetters_def)
qed

lemma toLowerChar_slash: "toLowerChar c = CHR ''/'' \<longleftrightarrow> c = CHR ''/''"
proof
  assume h: "toLowerChar c = CHR ''/''"
  have "CHR ''/'' \<notin> set lowerCaseLetters" by (simp add: lowerCaseLetters_def)
  with h toLowerChar_cases [of c] show "c = CHR ''/''" by auto
next
  assume "c = CHR ''/''"
  then show "toLowerChar c = CHR ''/''"
    by (simp add: toLowerChar_def upperCaseLetters_def lowerCaseLetters_def)
qed

text \<open>An extension is empty, or a dot followed by characters that are neither dots nor
  slashes; and such a string, read as a file name, has no extension of its own.\<close>

lemma extname_shape:
  "extname p = [] \<or>
     (\<exists>suf. extname p = CHR ''.'' # suf \<and> CHR ''.'' \<notin> set suf \<and> CHR ''/'' \<notin> set suf)"
proof -
  define base where
    "base = rev (takeWhile (\<lambda>c. c \<noteq> CHR ''/'')
                   (rev (rev (dropWhile (\<lambda>c. c = CHR ''/'') (rev p)))))"
  define suf where "suf = rev (takeWhile (\<lambda>c. c \<noteq> CHR ''.'') (rev base))"
  have nodot: "CHR ''.'' \<notin> set suf"
    unfolding suf_def by (auto dest: set_takeWhileD)
  have "CHR ''/'' \<notin> set base"
    unfolding base_def by (auto dest: set_takeWhileD)
  moreover have "set suf \<subseteq> set base"
    unfolding suf_def by (auto dest: set_takeWhileD)
  ultimately have noslash: "CHR ''/'' \<notin> set suf" by blast
  have "extname p = [] \<or> extname p = CHR ''.'' # suf"
    unfolding extname_def Let_def suf_def base_def by simp
  with nodot noslash show ?thesis by blast
qed


lemma extname_of_extension:
  assumes "CHR ''.'' \<notin> set suf" and "CHR ''/'' \<notin> set suf"
  shows "extname (CHR ''.'' # suf) = []"
proof -
  let ?e = "CHR ''.'' # suf"
  have all: "\<forall>x \<in> set (rev ?e). x \<noteq> CHR ''/''" using assms by auto
  have "dropWhile (\<lambda>c. c = CHR ''/'') (rev ?e) = rev ?e"
  proof (cases suf rule: rev_cases)
    case Nil
    then show ?thesis by simp
  next
    case (snoc ys y)
    with assms show ?thesis by auto
  qed
  then have t: "rev (dropWhile (\<lambda>c. c = CHR ''/'') (rev ?e)) = ?e"
    by (simp only: rev_rev_ident)
  have "takeWhile (\<lambda>c. c \<noteq> CHR ''/'') (rev ?e) = rev ?e"
    using all by (simp only: takeWhile_eq_all_conv)
  then have b: "rev (takeWhile (\<lambda>c. c \<noteq> CHR ''/'') (rev ?e)) = ?e"
    by (simp only: rev_rev_ident)
  have "takeWhile (\<lambda>c. c \<noteq> CHR ''.'') (rev suf @ [CHR ''.'']) = rev suf"
    using assms by (auto simp: takeWhile_tail)
  then have s: "rev (takeWhile (\<lambda>c. c \<noteq> CHR ''.'') (rev ?e)) = suf"
    by simp
  have "extname ?e =
          (if CHR ''.'' \<notin> set ?e then []
           else if take (length ?e - length suf - 1) ?e = [] then []
           else if ?e = ''..'' then []
           else CHR ''.'' # suf)"
    by (simp only: extname_def Let_def t b s)
  then show ?thesis by simp
qed


lemma extension_never_valid: "\<not> isValidExtension (getFileExtension fileName)"
proof -
  have none: "extname [] = []" by (simp add: extname_def)
  have empty: "toLowerCase [] \<notin> set allowedExtensions"
    by (simp add: toLowerCase_def allowedExtensions_def)
  have "extname (getFileExtension fileName) = []"
  proof -
    from extname_shape [of fileName] show ?thesis
    proof
      assume "extname fileName = []"
      then have "getFileExtension fileName = []"
        by (simp add: getFileExtension_def toLowerCase_def)
      with none show ?thesis by (simp only:)
    next
      assume "\<exists>suf. extname fileName = CHR ''.'' # suf \<and> CHR ''.'' \<notin> set suf
                \<and> CHR ''/'' \<notin> set suf"
      then obtain suf where s: "extname fileName = CHR ''.'' # suf" "CHR ''.'' \<notin> set suf"
        "CHR ''/'' \<notin> set suf" by blast
      have dot: "toLowerChar (CHR ''.'') = CHR ''.''"
        using toLowerChar_dot [of "CHR ''.''"] by simp
      have lower: "getFileExtension fileName = CHR ''.'' # map toLowerChar suf"
        using s(1) dot by (simp add: getFileExtension_def toLowerCase_def)
      have a: "CHR ''.'' \<notin> set (map toLowerChar suf)"
      proof
        assume "CHR ''.'' \<in> set (map toLowerChar suf)"
        then obtain c where "c \<in> set suf" "toLowerChar c = CHR ''.''" by auto
        with toLowerChar_dot [of c] s(2) show False by simp
      qed
      have b: "CHR ''/'' \<notin> set (map toLowerChar suf)"
      proof
        assume "CHR ''/'' \<in> set (map toLowerChar suf)"
        then obtain c where "c \<in> set suf" "toLowerChar c = CHR ''/''" by auto
        with toLowerChar_slash [of c] s(3) show False by simp
      qed
      from a b have "extname (CHR ''.'' # map toLowerChar suf) = []"
        by (rule extname_of_extension)
      with lower show ?thesis by (simp only:)
    qed
  qed
  then have "isValidExtension (getFileExtension fileName)
               = (toLowerCase [] \<in> set allowedExtensions)"
    by (simp only: isValidExtension_def)
  with empty show ?thesis by blast
qed

text \<open>What \<open>emit\<close> and \<open>checkAuth\<close> leave alone.\<close>

lemma trace_emit: "trace (emit ev w) = trace w @ [ev]"
  by (simp add: emit_def)

lemma files_emit: "files (emit ev w) = files w"
  by (simp add: emit_def)

lemma tokensFile_emit: "tokensFile (emit ev w) = tokensFile w"
  by (simp add: emit_def)

lemma checkAuth_acquisitions:
  "filter isAcquisition (trace (snd (checkAuth e userId w))) = filter isAcquisition (trace w)"
  by (simp add: checkAuth_def trace_emit split: option.splits)

lemma checkAuth_files: "files (snd (checkAuth e userId w)) = files w"
  by (simp add: checkAuth_def files_emit split: option.splits)

lemma handleVideoFile_no_acquisition:
  "filter isAcquisition (trace (snd (handleVideoFile e cfg userId file type s w)))
     = filter isAcquisition (trace w)"
proof (cases "checkAuth e userId w")
  case (Pair isAuth w1)
  with checkAuth_acquisitions [of e userId w]
  have "filter isAcquisition (trace w1) = filter isAcquisition (trace w)" by simp
  with Pair show ?thesis
    by (simp add: handleVideoFile_def extension_never_valid trace_emit Let_def)
qed

text \<open>
  Claim C4 (the code departs from it). \<open>handleVideoFile\<close> takes the extension of the file
  name with \<open>getFileExtension\<close> and hands that extension, not the file name, to
  \<open>isValidExtension\<close>, which takes the extension of its argument once more. An extension
  has no extension, so the check fails for every file name: no file is ever accepted, and
  \<open>handleVideoFile\<close> never starts an acquisition. \<open>isValidExtension\<close> itself accepts
  \<open>clip.mp4\<close>; the handler rejects the document \<open>clip.mp4\<close> and a plain Telegram video
  (named \<open>video_AbC.mp4\<close> by the handler) with the unsupported-format reply.
\<close>

theorem handleVideoFile_rejects_every_file:
  "\<not> isValidExtension (getFileExtension fileName)
   \<and> filter isAcquisition (trace (snd (handleVideoFile e cfg userId file type s w)))
       = filter isAcquisition (trace w)
   \<and> isValidExtension ''clip.mp4''
   \<and> on_document sampleEnv sampleConfig 7
         \<lparr>file_id = ''AbC'', file_size = Some 1000, file_name = Some ''clip.mp4'',
          mime_type = Some ''video/mp4''\<rparr>
         (sampleSession\<lparr>step := AwaitingVideo\<rparr>) authedWorld
       = (sampleSession\<lparr>step := AwaitingVideo\<rparr>,
          emit (Reply (unsupportedMsg ''.mp4'')) (emit ChannelsList authedWorld))
   \<and> on_video sampleEnv sampleConfig 7
         \<lparr>file_id = ''AbC'', file_size = Some 1000, file_name = None, mime_type = None\<rparr>
         (sampleSession\<lparr>step := AwaitingVideo\<rparr>) authedWorld
       = (sampleSession\<lparr>step := AwaitingVideo\<rparr>,
          emit (Reply (unsupportedMsg ''.mp4'')) (emit ChannelsList authedWorld))"
proof (intro conjI)
  show "\<not> isValidExtension (getFileExtension fileName)"
    by (rule extension_never_valid)
  show "filter isAcquisition (trace (snd (handleVideoFile e cfg userId file type s w)))
          = filter isAcquisition (trace w)"
    by (rule handleVideoFile_no_acquisition)
  show "isValidExtension ''clip.mp4''"
    by (simp add: isValidExtension_def extname_def toLowerCase_def toLowerChar_def
          upperCaseLetters_def lowerCaseLetters_def allowedExtensions_def)
  have auth: "checkAuth sampleEnv 7 authedWorld = (True, emit ChannelsList authedWorld)"
    by (simp add: checkAuth_def getTokens_def authedWorld_def sampleWorld_def sampleEnv_def)
  have small: "\<not> int 1000 > maxSize sampleConfig"
    by (simp add: sampleConfig_def files_maxSize_def defaultMaxSize_def)
  have ext1: "getFileExtension ''clip.mp4'' = ''.mp4''"
    by (simp add: getFileExtension_def extname_def toLowerCase_def toLowerChar_def
          upperCaseLetters_def lowerCaseLetters_def)
  have ext2: "getFileExtension ''video_AbC.mp4'' = ''.mp4''"
    by (simp add: getFileExtension_def extname_def toLowerCase_def toLowerChar_def
          upperCaseLetters_def lowerCaseLetters_def)
  have bad: "\<not> isValidExtension ''.mp4''"
    using extension_never_valid [of "''clip.mp4''"] ext1 by simp
  show "on_document sampleEnv sampleConfig 7
         \<lparr>file_id = ''AbC'', file_size = Some 1000, file_name = Some ''clip.mp4'',
          mime_type = Some ''video/mp4''\<rparr>
         (sampleSession\<lparr>step := AwaitingVideo\<rparr>) authedWorld
       = (sampleSession\<lparr>step := AwaitingVideo\<rparr>,
          emit (Reply (unsupportedMsg ''.mp4'')) (emit ChannelsList authedWorld))"
    using small by (simp add: on_document_def handleVideoFile_def auth ext1 bad orElse_def)
  show "on_video sampleEnv sampleConfig 7
         \<lparr>file_id = ''AbC'', file_size = Some 1000, file_name = None, mime_type = None\<rparr>
         (sampleSession\<lparr>step := AwaitingVideo\<rparr>) authedWorld
       = (sampleSession\<lparr>step := AwaitingVideo\<rparr>,
          emit (Reply (unsupportedMsg ''.mp4'')) (emit ChannelsList authedWorld))"
    using small by (simp add: on_video_def handleVideoFile_def auth ext2 bad)
qed

subsection \<open>Downloads\<close>

lemma files_written: "files (written path n w) = (files w)(path \<mapsto> n)"
  by (simp add: written_def)

lemma files_remove: "files (remove path w) = (files w)(path := None)"
  by (simp add: remove_def)

text \<open>
  Claim C6. Let the configured maximum be positive (the default is 50 MiB) and let the
  transfer run to completion with \<open>n\<close> bytes. When \<open>n\<close> is the maximum exactly, chat-media
  acquisition succeeds with a file of \<open>n\<close> bytes in scratch storage, and so does direct-URL
  acquisition of an \<open>http\<close> URL. When \<open>n\<close> is larger than the maximum, both fail with
  their \<open>File too large\<close> message, and the file they wrote is gone from scratch storage.
\<close>

theorem download_size_boundary:
  assumes "httpGet e url = Stream ctype (Completed n)" and "0 < maxSize cfg"
  shows
  "(int n = maxSize cfg \<longrightarrow>
      fst (downloadTelegramFile e cfg url fileName w)
        = Ok \<lparr>dl_filePath = pathJoin e tempDir fileName,
              dl_fileName = basename e (pathJoin e tempDir fileName),
              dl_size = n, dl_mimeType = orElse ctype ''video/mp4''\<rparr>
      \<and> files (snd (downloadTelegramFile e cfg url fileName w)) (pathJoin e tempDir fileName)
        = Some n
      \<and> (startsWith url ''http'' \<longrightarrow>
           (\<exists>d. fst (downloadDirectUrl e cfg url optName w) = Ok d \<and> dl_size d = n
              \<and> files (snd (downloadDirectUrl e cfg url optName w)) (dl_filePath d) = Some n)))
   \<and> (int n > maxSize cfg \<longrightarrow>
      fst (downloadTelegramFile e cfg url fileName w)
        = Failed (''Download failed: File too large: '' @ toFixed2MB n @ ''MB (max: ''
                    @ maxSizeMB cfg @ ''MB)'')
      \<and> files (snd (downloadTelegramFile e cfg url fileName w)) (pathJoin e tempDir fileName)
        = None
      \<and> (startsWith url ''http'' \<longrightarrow>
           fst (downloadDirectUrl e cfg url optName w)
             = Failed (''URL download failed: File too large: '' @ toFixed2MB n @ ''MB'')
           \<and> files (snd (downloadDirectUrl e cfg url optName w))
                (pathJoin e tempDir (orElse optName (''direct_'' @ toString (now e) @ ''.mp4'')))
             = None))"
proof (intro conjI impI)
  assume eq: "int n = maxSize cfg"
  with assms(2) have n: "n \<noteq> 0" "\<not> int n > maxSize cfg" by auto
  show "fst (downloadTelegramFile e cfg url fileName w)
        = Ok \<lparr>dl_filePath = pathJoin e tempDir fileName,
              dl_fileName = basename e (pathJoin e tempDir fileName),
              dl_size = n, dl_mimeType = orElse ctype ''video/mp4''\<rparr>"
    using assms(1) n
    by (simp add: downloadTelegramFile_def downloadTelegramFile_try_def Let_def)
  show "files (snd (downloadTelegramFile e cfg url fileName w)) (pathJoin e tempDir fileName)
        = Some n"
    using assms(1) n
    by (simp add: downloadTelegramFile_def downloadTelegramFile_try_def Let_def files_written)
  assume "startsWith url ''http''"
  then show "\<exists>d. fst (downloadDirectUrl e cfg url optName w) = Ok d \<and> dl_size d = n
              \<and> files (snd (downloadDirectUrl e cfg url optName w)) (dl_filePath d) = Some n"
    using assms(1) n
    by (simp add: downloadDirectUrl_def downloadDirectUrl_try_def Let_def files_written)
next
  assume gt: "int n > maxSize cfg"
  with assms(2) have n: "n \<noteq> 0" by auto
  show "fst (downloadTelegramFile e cfg url fileName w)
        = Failed (''Download failed: File too large: '' @ toFixed2MB n @ ''MB (max: ''
                    @ maxSizeMB cfg @ ''MB)'')"
    using assms(1) n gt
    by (simp add: downloadTelegramFile_def downloadTelegramFile_try_def Let_def)
  show "files (snd (downloadTelegramFile e cfg url fileName w)) (pathJoin e tempDir fileName)
        = None"
    using assms(1) n gt
    by (simp add: downloadTelegramFile_def downloadTelegramFile_try_def Let_def files_remove)
  assume http: "startsWith url ''http''"
  then show "fst (downloadDirectUrl e cfg url optName w)
             = Failed (''URL download failed: File too large: '' @ toFixed2MB n @ ''MB'')"
    using assms(1) gt
    by (simp add: downloadDirectUrl_def downloadDirectUrl_try_def Let_def)
  from http show "files (snd (downloadDirectUrl e cfg url optName w))
                (pathJoin e tempDir (orElse optName (''direct_'' @ toString (now e) @ ''.mp4'')))
             = None"
    using assms(1) gt
    by (simp add: downloadDirectUrl_def downloadDirectUrl_try_def Let_def files_remove)
qed

text \<open>
  Claim C10. When the fetch of an \<open>http\<close> URL completes with a body of zero bytes (and the
  configured maximum is not negative), \<open>downloadDirectUrl\<close> answers success with size 0 and
  keeps the empty file, while \<open>downloadTelegramFile\<close> on the same response fails with
  \<open>Downloaded file is empty\<close> and removes the file.
\<close>

theorem direct_url_accepts_empty_file:
  assumes "httpGet e url = Stream ctype (Completed 0)" and "startsWith url ''http''"
    and "0 \<le> maxSize cfg"
  shows
  "fst (downloadDirectUrl e cfg url optName w)
     = Ok \<lparr>dl_filePath =
             pathJoin e tempDir (orElse optName (''direct_'' @ toString (now e) @ ''.mp4'')),
           dl_fileName = basename e
             (pathJoin e tempDir (orElse optName (''direct_'' @ toString (now e) @ ''.mp4''))),
           dl_size = 0, dl_mimeType = orElse ctype ''video/mp4''\<rparr>
   \<and> files (snd (downloadDirectUrl e cfg url optName w))
        (pathJoin e tempDir (orElse optName (''direct_'' @ toString (now e) @ ''.mp4'')))
     = Some 0
   \<and> fst (downloadTelegramFile e cfg url fileName w)
     = Failed ''Download failed: Downloaded file is empty''
   \<and> files (snd (downloadTelegramFile e cfg url fileName w)) (pathJoin e tempDir fileName)
     = None"
  using assms
  by (simp add: downloadDirectUrl_def downloadDirectUrl_try_def downloadTelegramFile_def
        downloadTelegramFile_try_def Let_def files_written files_remove)


theorem download_size_boundary_witness:
  "fst (downloadTelegramFile (sampleEnv\<lparr>httpGet := \<lambda>u. Stream None (Completed 52428800)\<rparr>)
          sampleConfig ''https://api.telegram.org/file/AbC'' ''video_AbC.mp4'' sampleWorld)
     = Ok \<lparr>dl_filePath = ''temp/video_AbC.mp4'', dl_fileName = ''video_AbC.mp4'',
           dl_size = 52428800, dl_mimeType = ''video/mp4''\<rparr>
   \<and> fst (downloadTelegramFile (sampleEnv\<lparr>httpGet := \<lambda>u. Stream None (Completed 52428801)\<rparr>)
          sampleConfig ''https://api.telegram.org/file/AbC'' ''video_AbC.mp4'' sampleWorld)
     = Failed ''Download failed: File too large: 50.00MB (max: 50MB)''
   \<and> files (snd (downloadTelegramFile
                   (sampleEnv\<lparr>httpGet := \<lambda>u. Stream None (Completed 52428801)\<rparr>)
                   sampleConfig ''https://api.telegram.org/file/AbC'' ''video_AbC.mp4''
                   sampleWorld)) ''temp/video_AbC.mp4''
     = None
   \<and> fst (downloadDirectUrl (sampleEnv\<lparr>httpGet := \<lambda>u. Stream None (Completed 52428801)\<rparr>)
          sampleConfig ''https://example.org/clip.mp4'' (Some ''url_1.mp4'') sampleWorld)
     = Failed ''URL download failed: File too large: 50.00MB''"
proof -
  let ?at = "sampleEnv\<lparr>httpGet := \<lambda>u. Stream None (Completed 52428800)\<rparr>"
  let ?over = "sampleEnv\<lparr>httpGet := \<lambda>u. Stream None (Completed 52428801)\<rparr>"
  have pos: "0 < maxSize sampleConfig"
    by (simp add: sampleConfig_def files_maxSize_def defaultMaxSize_def)
  have at: "httpGet ?at ''https://api.telegram.org/file/AbC'' = Stream None (Completed 52428800)"
    by simp
  have over: "httpGet ?over ''https://api.telegram.org/file/AbC''
                = Stream None (Completed 52428801)"
    by simp
  have over2: "httpGet ?over ''https://example.org/clip.mp4'' = Stream None (Completed 52428801)"
    by simp
  have fmt: "toFixed2MB 52428801 = ''50.00''"
    by (simp add: toFixed2MB_def digit_def toString.simps)
  have cfg: "int 52428800 = maxSize sampleConfig" "int 52428801 > maxSize sampleConfig"
    "maxSizeMB sampleConfig = ''50''"
    by (simp_all add: sampleConfig_def files_maxSize_def defaultMaxSize_def)
  have paths: "pathJoin ?at tempDir ''video_AbC.mp4'' = ''temp/video_AbC.mp4''"
    "pathJoin ?over tempDir ''video_AbC.mp4'' = ''temp/video_AbC.mp4''"
    "basename ?at ''temp/video_AbC.mp4'' = ''video_AbC.mp4''"
    by (simp_all add: sampleEnv_def)
  have http: "startsWith ''https://example.org/clip.mp4'' ''http''" by simp
  show ?thesis
    using download_size_boundary [OF at pos, of "''video_AbC.mp4''" sampleWorld None]
          download_size_boundary [OF over pos, of "''video_AbC.mp4''" sampleWorld None]
          download_size_boundary [OF over2 pos, of "''video_AbC.mp4''" sampleWorld
                                    "Some ''url_1.mp4''"]
          cfg fmt paths http
    by (simp add: orElse_def)
qed

theorem direct_url_accepts_empty_file_witness:
  "fst (downloadDirectUrl (sampleEnv\<lparr>httpGet := \<lambda>u. Stream None (Completed 0)\<rparr>)
          sampleConfig ''https://example.org/empty.mp4'' (Some ''url_1.mp4'') sampleWorld)
     = Ok \<lparr>dl_filePath = ''temp/url_1.mp4'', dl_fileName = ''url_1.mp4'', dl_size = 0,
           dl_mimeType = ''video/mp4''\<rparr>
   \<and> fst (downloadTelegramFile (sampleEnv\<lparr>httpGet := \<lambda>u. Stream None (Completed 0)\<rparr>)
          sampleConfig ''https://example.org/empty.mp4'' ''video_AbC.mp4'' sampleWorld)
     = Failed ''Download failed: Downloaded file is empty''"
proof -
  let ?e = "sampleEnv\<lparr>httpGet := \<lambda>u. Stream None (Completed 0)\<rparr>"
  have get: "httpGet ?e ''https://example.org/empty.mp4'' = Stream None (Completed 0)"
    by simp
  have http: "startsWith ''https://example.org/empty.mp4'' ''http''" by simp
  have max: "0 \<le> maxSize sampleConfig"
    by (simp add: sampleConfig_def files_maxSize_def defaultMaxSize_def)
  have paths: "pathJoin ?e tempDir ''url_1.mp4'' = ''temp/url_1.mp4''"
    "basename ?e ''temp/url_1.mp4'' = ''url_1.mp4''"
    by (simp_all add: sampleEnv_def)
  show ?thesis
    using direct_url_accepts_empty_file
            [OF get http max, of "Some ''url_1.mp4''" sampleWorld "''video_AbC.mp4''"] paths
    by (simp add: orElse_def)
qed

text \<open>A transfer that breaks after \<open>k\<close> bytes: both entry points answer failure with the
  error's message, and the file holding the \<open>k\<close> bytes stays where the stream wrote it.\<close>

lemma interrupted_transfer_leaves_file:
  "httpGet e url = Stream ctype (Interrupted k m) \<Longrightarrow> startsWith url ''http'' \<Longrightarrow>
     downloadDirectUrl e cfg url optName w
       = (Failed (''URL download failed: '' @ m),
          written (pathJoin e tempDir (orElse optName (''direct_'' @ toString (now e) @ ''.mp4'')))
            k (emit (HttpGet url) (emit (HttpHead url) w)))
     \<and> downloadTelegramFile e cfg url fileName w
       = (Failed (''Download failed: '' @ m),
          written (pathJoin e tempDir fileName) k (emit (HttpGet url) w))"
  by (simp add: downloadDirectUrl_def downloadDirectUrl_try_def downloadTelegramFile_def
        downloadTelegramFile_try_def Let_def)

text \<open>
  Claim C7 (the code departs from it). User 7, authenticated and in \<open>awaiting_video\<close>,
  sends the link \<open>https://example.org/clip.mp4\<close>; the response streams 4096 bytes and
  then the connection aborts. The session goes back to \<open>idle\<close> and the reply carries the
  error string of the downloader, as the claim says; but the partial file of 4096 bytes,
  which was not there before, is left in scratch storage. The downloader removes the file
  it wrote only on its own two checks (empty, too large), not when the transfer fails.
\<close>

theorem handleUrl_interrupted_leaves_partial_file:
  "step (fst (handleUrl
           (sampleEnv\<lparr>httpGet := \<lambda>u. Stream (Some ''video/mp4'') (Interrupted 4096 ''aborted'')\<rparr>)
           sampleConfig ''https://example.org/clip.mp4'' 7
           (sampleSession\<lparr>step := AwaitingVideo\<rparr>) authedWorld)) = Idle
   \<and> last (trace (snd (handleUrl
           (sampleEnv\<lparr>httpGet := \<lambda>u. Stream (Some ''video/mp4'') (Interrupted 4096 ''aborted'')\<rparr>)
           sampleConfig ''https://example.org/clip.mp4'' 7
           (sampleSession\<lparr>step := AwaitingVideo\<rparr>) authedWorld)))
       = Reply (crossMark @ '' Download failed: URL download failed: aborted'')
   \<and> files (snd (handleUrl
           (sampleEnv\<lparr>httpGet := \<lambda>u. Stream (Some ''video/mp4'') (Interrupted 4096 ''aborted'')\<rparr>)
           sampleConfig ''https://example.org/clip.mp4'' 7
           (sampleSession\<lparr>step := AwaitingVideo\<rparr>) authedWorld))
         ''temp/url_1700000000000.mp4''
       = Some 4096
   \<and> files authedWorld ''temp/url_1700000000000.mp4'' = None"
proof -
  let ?e = "sampleEnv\<lparr>httpGet := \<lambda>u. Stream (Some ''video/mp4'') (Interrupted 4096 ''aborted'')\<rparr>"
  let ?url = "''https://example.org/clip.mp4''"
  have auth: "checkAuth ?e 7 authedWorld = (True, emit ChannelsList authedWorld)"
    by (simp add: checkAuth_def getTokens_def authedWorld_def sampleWorld_def sampleEnv_def)
  have drive: "\<not> includes_str ?url ''drive.google.com''" by simp
  have name: "toString (now sampleEnv) = ''1700000000000''"
    by (simp add: sampleEnv_def digit_def toString.simps)
  have get: "httpGet ?e ?url = Stream (Some ''video/mp4'') (Interrupted 4096 ''aborted'')"
    by simp
  have http: "startsWith ?url ''http''" by simp
  have path: "pathJoin sampleEnv tempDir ''url_1700000000000.mp4''
                = ''temp/url_1700000000000.mp4''"
    by (simp add: sampleEnv_def)
  note dl = interrupted_transfer_leaves_file
              [OF get http, of sampleConfig "Some ''url_1700000000000.mp4''", THEN conjunct1]
  have run: "handleUrl ?e sampleConfig ?url 7 (sampleSession\<lparr>step := AwaitingVideo\<rparr>) authedWorld
      = (sampleSession\<lparr>step := Idle\<rparr>,
         emit (Reply (downloadFailedMsg ''URL download failed: aborted''))
           (written ''temp/url_1700000000000.mp4'' 4096
              (emit (HttpGet ?url) (emit (HttpHead ?url)
                 (emit (Reply (inboxTray @ '' Downloading from URL...''))
                    (emit (Reply (linkSign @ '' Processing link...''))
                       (emit ChannelsList authedWorld)))))))"
    unfolding handleUrl_def
    by (simp add: auth drive name dl path orElse_def Let_def del: includes_str.simps startsWith.simps)
  show ?thesis
    unfolding run
    by (simp add: trace_emit files_emit files_written downloadFailedMsg_def
          authedWorld_def sampleWorld_def)
qed

subsection \<open>Cleanup, cancellation and the end of an upload\<close>

text \<open>\<open>cleanup\<close> removes a recorded (truthy) path from scratch storage and touches nothing
  else.\<close>

lemma cleanup_removes:
  "fp = Some p \<Longrightarrow> p \<noteq> [] \<Longrightarrow> files (cleanup fp w) p = None"
  by (auto simp: cleanup_def files_remove)

lemma cleanup_trace: "trace (cleanup fp w) = trace w"
  by (simp add: cleanup_def remove_def split: option.splits)

lemma cleanup_tokensFile: "tokensFile (cleanup fp w) = tokensFile w"
  by (simp add: cleanup_def remove_def split: option.splits)

lemma cleanup_falsy: "\<not> truthy fp \<Longrightarrow> cleanup fp w = w"
  by (cases fp) (simp_all add: cleanup_def)

lemma files_cleanup_emit: "files (cleanup fp (emit ev w)) = files (cleanup fp w)"
  by (simp add: cleanup_def remove_def emit_def split: option.splits)

text \<open>The command \<open>/cancel\<close> resets the session, keeps \<open>isAdmin\<close> and cleans the recorded
  file up.\<close>

lemma cmd_cancel_resets:
  "step (fst (cmd_cancel e s w)) = Idle
   \<and> authStep (fst (cmd_cancel e s w)) = None
   \<and> videoInfo (fst (cmd_cancel e s w)) = emptyVideoInfo
   \<and> filePath (fst (cmd_cancel e s w)) = None
   \<and> isAdmin (fst (cmd_cancel e s w)) = isAdmin s
   \<and> files (snd (cmd_cancel e s w)) = files (cleanup (filePath s) w)"
  by (simp add: cmd_cancel_def Let_def files_emit cleanup_falsy)

text \<open>
  Claim C8 (the code departs from it). The command \<open>/cancel\<close> does what the claim says, but
  the \<open>cancel\<close> button only sets the step to \<open>idle\<close>: for every session it leaves
  \<open>filePath\<close>, \<open>videoInfo\<close> and \<open>authStep\<close> as they were and removes no file. In the
  scenario (a download in scratch storage, \<open>authStep = awaiting_code\<close>) the button leaves
  the path recorded, the file on disk and the code awaited, where the command on the same
  session clears all three and keeps \<open>isAdmin\<close>.
\<close>

theorem action_cancel_only_resets_step:
  "filePath (fst (action_cancel s w)) = filePath s
   \<and> authStep (fst (action_cancel s w)) = authStep s
   \<and> videoInfo (fst (action_cancel s w)) = videoInfo s
   \<and> files (snd (action_cancel s w)) = files w
   \<and> step (fst (action_cancel downloadedSession downloadedWorld)) = Idle
   \<and> filePath (fst (action_cancel downloadedSession downloadedWorld))
       = Some ''temp/url_1700000000000.mp4''
   \<and> authStep (fst (action_cancel downloadedSession downloadedWorld)) = Some AwaitingCode
   \<and> files (snd (action_cancel downloadedSession downloadedWorld)) ''temp/url_1700000000000.mp4''
       = Some 1000
   \<and> filePath (fst (cmd_cancel sampleEnv downloadedSession downloadedWorld)) = None
   \<and> authStep (fst (cmd_cancel sampleEnv downloadedSession downloadedWorld)) = None
   \<and> isAdmin (fst (cmd_cancel sampleEnv downloadedSession downloadedWorld)) = True
   \<and> files (snd (cmd_cancel sampleEnv downloadedSession downloadedWorld))
        ''temp/url_1700000000000.mp4''
       = None"
  by (simp add: action_cancel_def cmd_cancel_def files_emit downloadedSession_def
        downloadedWorld_def cleanup_def files_remove Let_def)

text \<open>
  Claim C1. However the awaited \<open>uploadVideo\<close> call ends (it returned success, it returned
  failure, or it threw), what \<open>handleTags\<close> does afterwards leaves the session with step
  \<open>idle\<close>, an empty \<open>videoInfo\<close> and no \<open>filePath\<close>, and scratch storage as \<open>cleanup\<close> of
  the recorded path leaves it: a recorded (non-empty) path is no longer in scratch storage.
  The same holds of \<open>handleTags\<close> as a whole, which is what a text message starts in
  \<open>awaiting_tags\<close> when no authorization code is awaited.
\<close>

theorem handleTags_always_resets:
  "step (fst (handleTags_settle out s w)) = Idle
   \<and> videoInfo (fst (handleTags_settle out s w)) = emptyVideoInfo
   \<and> filePath (fst (handleTags_settle out s w)) = None
   \<and> files (snd (handleTags_settle out s w)) = files (cleanup (filePath s) w)
   \<and> (\<forall>p. filePath s = Some p \<and> p \<noteq> [] \<longrightarrow> files (snd (handleTags_settle out s w)) p = None)
   \<and> step (fst (handleTags e text userId s w)) = Idle
   \<and> videoInfo (fst (handleTags e text userId s w)) = emptyVideoInfo
   \<and> filePath (fst (handleTags e text userId s w)) = None
   \<and> files (snd (handleTags e text userId s w)) = files (cleanup (filePath s) w)
   \<and> (\<forall>p. filePath s = Some p \<and> p \<noteq> [] \<longrightarrow> files (snd (handleTags e text userId s w)) p = None)
   \<and> (step s = AwaitingTags \<and> authStep s \<noteq> Some AwaitingCode \<longrightarrow>
        on_text e cfg userId message s w = handleTags e (trim message) userId s w)"
proof -
  have settle: "\<And>out s w.
      step (fst (handleTags_settle out s w)) = Idle
      \<and> videoInfo (fst (handleTags_settle out s w)) = emptyVideoInfo
      \<and> filePath (fst (handleTags_settle out s w)) = None
      \<and> files (snd (handleTags_settle out s w)) = files (cleanup (filePath s) w)"
  proof -
    fix out :: "uploaded result outcome" and s :: session and w :: world
    show "step (fst (handleTags_settle out s w)) = Idle
      \<and> videoInfo (fst (handleTags_settle out s w)) = emptyVideoInfo
      \<and> filePath (fst (handleTags_settle out s w)) = None
      \<and> files (snd (handleTags_settle out s w)) = files (cleanup (filePath s) w)"
      by (cases "truthy (filePath s)")
         (simp_all add: handleTags_settle_def Let_def files_cleanup_emit cleanup_falsy files_emit
            split: outcome.splits result.splits)
  qed
  obtain r w1 where up: "uploadVideo e userId
       (videoInfo ((if toLowerCase text \<noteq> ''skip''
                then s\<lparr>videoInfo := (videoInfo s)\<lparr>tags := Some text\<rparr>\<rparr> else s)
                 \<lparr>step := Uploading\<rparr>))
       (emit (Reply (rocket @ '' Starting upload to YouTube...'')) w) = (r, w1)"
    by (cases "uploadVideo e userId
       (videoInfo ((if toLowerCase text \<noteq> ''skip''
                then s\<lparr>videoInfo := (videoInfo s)\<lparr>tags := Some text\<rparr>\<rparr> else s)
                 \<lparr>step := Uploading\<rparr>))
       (emit (Reply (rocket @ '' Starting upload to YouTube...'')) w)")
  have w1: "files w1 = files w"
    using up
    by (auto simp: uploadVideo_def uploadVideo_try_def files_emit Let_def
             split: option.splits sum.splits prod.splits)
  have run: "handleTags e text userId s w
      = handleTags_settle (Returned r)
          ((if toLowerCase text \<noteq> ''skip''
                then s\<lparr>videoInfo := (videoInfo s)\<lparr>tags := Some text\<rparr>\<rparr> else s)
                 \<lparr>step := Uploading\<rparr>) w1"
    by (simp only: handleTags_def Let_def up prod.case)
  have path: "filePath ((if toLowerCase text \<noteq> ''skip''
                then s\<lparr>videoInfo := (videoInfo s)\<lparr>tags := Some text\<rparr>\<rparr> else s)
                 \<lparr>step := Uploading\<rparr>) = filePath s"
    by simp
  have same: "files (cleanup (filePath s) w1) = files (cleanup (filePath s) w)"
    using w1 by (simp add: cleanup_def remove_def split: option.splits)
  have tags: "step (fst (handleTags e text userId s w)) = Idle
      \<and> videoInfo (fst (handleTags e text userId s w)) = emptyVideoInfo
      \<and> filePath (fst (handleTags e text userId s w)) = None
      \<and> files (snd (handleTags e text userId s w)) = files (cleanup (filePath s) w)"
    unfolding run using settle path same by simp
  have dispatch: "step s = AwaitingTags \<and> authStep s \<noteq> Some AwaitingCode \<longrightarrow>
        on_text e cfg userId message s w = handleTags e (trim message) userId s w"
    by (simp add: on_text_def Let_def)
  from settle [of out s w] tags dispatch show ?thesis
    by (auto simp: cleanup_removes)
qed

theorem handleTags_always_resets_witness:
  "step (fst (handleTags_settle (Threw ''socket hang up'')
                (downloadedSession\<lparr>step := Uploading\<rparr>) downloadedWorld)) = Idle
   \<and> files (snd (handleTags_settle (Threw ''socket hang up'')
                (downloadedSession\<lparr>step := Uploading\<rparr>) downloadedWorld))
        ''temp/url_1700000000000.mp4'' = None
   \<and> files downloadedWorld ''temp/url_1700000000000.mp4'' = Some 1000
   \<and> fst (handleTags sampleEnv ''cats, dogs'' 7
            (downloadedSession\<lparr>step := AwaitingTags\<rparr>) downloadedWorld)
       = downloadedSession\<lparr>step := Idle, videoInfo := emptyVideoInfo, filePath := None\<rparr>
   \<and> files (snd (handleTags sampleEnv ''cats, dogs'' 7
            (downloadedSession\<lparr>step := AwaitingTags\<rparr>) downloadedWorld))
        ''temp/url_1700000000000.mp4'' = None"
proof -
  have fp: "filePath (downloadedSession\<lparr>step := Uploading\<rparr>)
              = Some ''temp/url_1700000000000.mp4''"
    "filePath (downloadedSession\<lparr>step := AwaitingTags\<rparr>)
              = Some ''temp/url_1700000000000.mp4''"
    by (simp_all add: downloadedSession_def)
  have before: "files downloadedWorld ''temp/url_1700000000000.mp4'' = Some 1000"
    by (simp add: downloadedWorld_def)
  have whole: "fst (handleTags sampleEnv ''cats, dogs'' 7
            (downloadedSession\<lparr>step := AwaitingTags\<rparr>) downloadedWorld)
       = downloadedSession\<lparr>step := Idle, videoInfo := emptyVideoInfo, filePath := None\<rparr>"
    by (simp add: handleTags_def handleTags_settle_def Let_def split: prod.splits)
  show ?thesis
    using handleTags_always_resets
            [of "Threw ''socket hang up''" "downloadedSession\<lparr>step := Uploading\<rparr>"
                downloadedWorld sampleEnv "''cats, dogs''" 7 sampleConfig "''cats, dogs''"]
          handleTags_always_resets
            [of "Threw ''socket hang up''" "downloadedSession\<lparr>step := AwaitingTags\<rparr>"
                downloadedWorld sampleEnv "''cats, dogs''" 7 sampleConfig "''cats, dogs''"]
          fp before whole
    by (simp add: cleanup_removes)
qed

subsection \<open>Authentication\<close>

text \<open>The authentication check fails exactly when no credential is stored or the probe call
  fails.\<close>

lemma checkAuth_fails_iff:
  "\<not> fst (checkAuth e userId w) \<longleftrightarrow>
     (getTokens w userId = None
      \<or> (\<exists>c. getTokens w userId = Some c \<and> \<not> channelsList e (cr_tokens c)))"
  by (simp add: checkAuth_def split: option.splits)

text \<open>
  Claim C2. When the authentication check of the user fails (no stored credential, or a
  stored one whose probe call fails), \<open>/upload\<close> leaves the session as it was (an idle
  session stays idle), its last reply is the authentication-required message, it makes no
  acquisition call and it leaves scratch storage alone.
\<close>

theorem cmd_upload_unauthenticated:
  assumes "getTokens w userId = None
           \<or> (\<exists>c. getTokens w userId = Some c \<and> \<not> channelsList e (cr_tokens c))"
  shows "\<not> fst (checkAuth e userId w)
   \<and> fst (cmd_upload e userId s w) = s
   \<and> (step s = Idle \<longrightarrow> step (fst (cmd_upload e userId s w)) = Idle)
   \<and> last (trace (snd (cmd_upload e userId s w))) = Reply authRequiredMsg
   \<and> filter isAcquisition (trace (snd (cmd_upload e userId s w)))
       = filter isAcquisition (trace w)
   \<and> files (snd (cmd_upload e userId s w)) = files w"
proof -
  from assms have no: "\<not> fst (checkAuth e userId w)" by (simp add: checkAuth_fails_iff)
  obtain isAuth w1 where ca: "checkAuth e userId w = (isAuth, w1)"
    by (cases "checkAuth e userId w")
  with no have f: "isAuth = False" by simp
  from ca checkAuth_acquisitions [of e userId w] checkAuth_files [of e userId w]
  have w1: "filter isAcquisition (trace w1) = filter isAcquisition (trace w)" "files w1 = files w"
    by simp_all
  have run: "cmd_upload e userId s w = (s, emit (Reply authRequiredMsg) w1)"
    by (simp add: cmd_upload_def ca f)
  show ?thesis
    using no w1 by (simp add: run trace_emit files_emit)
qed

theorem cmd_upload_unauthenticated_witness:
  "cmd_upload sampleEnv 7 sampleSession sampleWorld
     = (sampleSession, emit (Reply authRequiredMsg) sampleWorld)
   \<and> step (fst (cmd_upload sampleEnv 7 sampleSession sampleWorld)) = Idle
   \<and> fst (cmd_upload (sampleEnv\<lparr>channelsList := \<lambda>tokens. False\<rparr>) 7 sampleSession authedWorld)
       = sampleSession
   \<and> trace (snd (cmd_upload (sampleEnv\<lparr>channelsList := \<lambda>tokens. False\<rparr>) 7 sampleSession
                    authedWorld))
       = [ChannelsList, Reply authRequiredMsg]
   \<and> fst (cmd_upload sampleEnv 7 sampleSession authedWorld)
       = sampleSession\<lparr>step := AwaitingVideo\<rparr>"
proof -
  have none: "getTokens sampleWorld 7 = None
     \<or> (\<exists>c. getTokens sampleWorld 7 = Some c \<and> \<not> channelsList sampleEnv (cr_tokens c))"
    by (simp add: getTokens_def sampleWorld_def)
  have probe: "getTokens authedWorld 7 = None
     \<or> (\<exists>c. getTokens authedWorld 7 = Some c
           \<and> \<not> channelsList (sampleEnv\<lparr>channelsList := \<lambda>tokens. False\<rparr>) (cr_tokens c))"
    by (simp add: getTokens_def authedWorld_def sampleWorld_def)
  have idle: "step sampleSession = Idle" by (simp add: sampleSession_def)
  have runs: "cmd_upload sampleEnv 7 sampleSession sampleWorld
     = (sampleSession, emit (Reply authRequiredMsg) sampleWorld)"
    "trace (snd (cmd_upload (sampleEnv\<lparr>channelsList := \<lambda>tokens. False\<rparr>) 7 sampleSession
                    authedWorld))
       = [ChannelsList, Reply authRequiredMsg]"
    "fst (cmd_upload sampleEnv 7 sampleSession authedWorld)
       = sampleSession\<lparr>step := AwaitingVideo\<rparr>"
    by (simp_all add: cmd_upload_def checkAuth_def getTokens_def sampleWorld_def authedWorld_def
          sampleEnv_def emit_def)
  show ?thesis
    using cmd_upload_unauthenticated [OF none, of sampleSession]
          cmd_upload_unauthenticated [OF probe, of sampleSession] idle runs
    by simp
qed






subsection \<open>Upload metadata\<close>

text \<open>Splitting loses nothing (joining the pieces with the separator gives the string
  back) and no piece holds the separator; a trimmed string has no white space at either
  end and no character the string did not have.\<close>

lemma split_not_Nil: "split s sep \<noteq> []"
  by (induction s) (auto split: list.splits)

lemma split_pieces: "p \<in> set (split s sep) \<Longrightarrow> sep \<notin> set p"
proof (induction s arbitrary: p)
  case Nil
  then show ?case by simp
next
  case (Cons a s)
  show ?case
  proof (cases "a = sep")
    case True
    with Cons show ?thesis by auto
  next
    case False
    obtain q qs where q: "split s sep = q # qs"
      using split_not_Nil [of s sep] by (cases "split s sep") auto
    with False Cons.prems have "p = a # q \<or> p \<in> set qs" by simp
    then show ?thesis
    proof
      assume "p = a # q"
      moreover have "sep \<notin> set q" using Cons.IH [of q] q by simp
      ultimately show ?thesis using False by auto
    next
      assume "p \<in> set qs"
      then show ?thesis using Cons.IH [of p] q by simp
    qed
  qed
qed

lemma join_Cons_Cons: "join ((a # q) # qs) sep = a # join (q # qs) sep"
  by (cases qs) simp_all

lemma join_split: "join (split s sep) [sep] = s"
proof (induction s)
  case Nil
  then show ?case by simp
next
  case (Cons a s)
  obtain q qs where q: "split s sep = q # qs"
    using split_not_Nil [of s sep] by (cases "split s sep") auto
  show ?case
  proof (cases "a = sep")
    case True
    with Cons q show ?thesis by simp
  next
    case False
    with Cons q show ?thesis by (simp add: join_Cons_Cons)
  qed
qed

lemma set_trim: "set (trim s) \<subseteq> set s"
  by (auto simp: trim_def dest!: set_dropWhileD)

lemma trim_ends:
  assumes "trim s \<noteq> []"
  shows "\<not> isWhiteSpace (hd (trim s)) \<and> \<not> isWhiteSpace (last (trim s))"
proof -
  define a where "a = dropWhile isWhiteSpace s"
  define b where "b = dropWhile isWhiteSpace (rev a)"
  have t: "trim s = rev b" by (simp add: trim_def a_def b_def)
  with assms have b: "b \<noteq> []" by simp
  then have hb: "\<not> isWhiteSpace (hd b)"
    unfolding b_def by (rule hd_dropWhile)
  have "rev a = takeWhile isWhiteSpace (rev a) @ b" by (simp add: b_def)
  with b have "last (rev a) = last b" by (metis last_appendR)
  moreover from b have a: "a \<noteq> []" by (auto simp: b_def)
  ultimately have "last b = hd a" by (simp add: last_rev)
  moreover from a have "\<not> isWhiteSpace (hd a)"
    unfolding a_def by (rule hd_dropWhile)
  ultimately have lb: "\<not> isWhiteSpace (last b)" by simp
  from b hb lb show ?thesis by (simp add: t hd_rev last_rev)
qed

text \<open>
  Claim C3, as amended. For a user with a stored credential and a record whose title is
  set, the metadata \<open>uploadVideo\<close> builds has the first 100 characters of the title, the
  first 5000 of the description (the empty string when there is none), and as tags the first
  30 of the non-empty trimmed pieces of the raw tag string split at commas (no tags when the
  field is unset): at most 30 tags, each non-empty, without white space at its ends and
  without a comma. Privacy is \<open>private\<close> and the category is \<open>22\<close> when unset. When the record
  names the file, this metadata is the request body of the one \<open>videos.insert\<close> call and the
  answer of that call decides the result; when it does not, the call is never made and the
  result is a failure.
\<close>

theorem uploadVideo_metadata:
  assumes "getTokens w userId = Some c" and "title videoData = Some t"
  shows
  "md_title (videoMetadata videoData t) = take 100 t
   \<and> length (md_title (videoMetadata videoData t)) \<le> 100
   \<and> md_description (videoMetadata videoData t)
       = (case description videoData of None \<Rightarrow> [] | Some d \<Rightarrow> take 5000 d)
   \<and> length (md_description (videoMetadata videoData t)) \<le> 5000
   \<and> md_tags (videoMetadata videoData t)
       = (case tags videoData of
            None \<Rightarrow> []
          | Some raw \<Rightarrow> take 30 (filter (\<lambda>x. x \<noteq> []) (map trim (split raw (CHR '','')))))
   \<and> (\<forall>raw. tags videoData = Some raw \<longrightarrow> join (split raw (CHR '','')) '','' = raw)
   \<and> length (md_tags (videoMetadata videoData t)) \<le> 30
   \<and> (\<forall>tag \<in> set (md_tags (videoMetadata videoData t)).
         tag \<noteq> [] \<and> \<not> isWhiteSpace (hd tag) \<and> \<not> isWhiteSpace (last tag)
         \<and> CHR '','' \<notin> set tag)
   \<and> md_privacyStatus (videoMetadata videoData t)
       = (case privacyStatus videoData of
            None \<Rightarrow> ''private'' | Some p \<Rightarrow> if p = [] then ''private'' else p)
   \<and> md_categoryId (videoMetadata videoData t)
       = (case categoryId videoData of
            None \<Rightarrow> ''22'' | Some g \<Rightarrow> if g = [] then ''22'' else g)
   \<and> (\<forall>p. vi_filePath videoData = Some p \<longrightarrow>
         trace (snd (uploadVideo e userId videoData w))
           = trace w @ [VideosInsert (videoMetadata videoData t) p
                          (orElse (mimeType videoData) ''video/mp4'')])
   \<and> (\<forall>p. vi_filePath videoData = Some p \<longrightarrow>
         uploadVideo e userId videoData w
           = ((case videosInsert e (videoMetadata videoData t) p
                      (orElse (mimeType videoData) ''video/mp4'') of
                 Inl m \<Rightarrow> Failed m
               | Inr r \<Rightarrow>
                   Ok \<lparr>up_videoId = ins_id r,
                       up_videoUrl = ''https://www.youtube.com/watch?v='' @ ins_id r,
                       up_title = ins_title r, up_privacyStatus = ins_privacyStatus r,
                       up_thumbnail = ins_thumbnail r\<rparr>),
              emit (VideosInsert (videoMetadata videoData t) p
                      (orElse (mimeType videoData) ''video/mp4'')) w))
   \<and> (vi_filePath videoData = None \<longrightarrow>
         uploadVideo e userId videoData w = (Failed undefinedPathMessage, w))"
proof -
  let ?md = "videoMetadata videoData t"
  have title: "md_title ?md = take 100 t" "length (md_title ?md) \<le> 100"
    by (simp_all add: videoMetadata_def substring0_def)
  have descr: "md_description ?md
       = (case description videoData of None \<Rightarrow> [] | Some d \<Rightarrow> take 5000 d)"
    "length (md_description ?md) \<le> 5000"
    by (simp_all add: videoMetadata_def substring0_def split: option.splits)
  have tags: "md_tags ?md
       = (case tags videoData of
            None \<Rightarrow> []
          | Some raw \<Rightarrow> take 30 (filter (\<lambda>x. x \<noteq> []) (map trim (split raw (CHR '','')))))"
    by (simp add: videoMetadata_def trim_def split: option.splits)
  have roundtrip: "\<forall>raw. tags videoData = Some raw \<longrightarrow> join (split raw (CHR '','')) '','' = raw"
    using join_split [of _ "CHR '',''"] by simp
  have count: "length (md_tags ?md) \<le> 30"
    by (simp add: tags split: option.splits)
  have each: "\<forall>tag \<in> set (md_tags ?md).
         tag \<noteq> [] \<and> \<not> isWhiteSpace (hd tag) \<and> \<not> isWhiteSpace (last tag)
         \<and> CHR '','' \<notin> set tag"
  proof
    fix tag assume mem: "tag \<in> set (md_tags ?md)"
    show "tag \<noteq> [] \<and> \<not> isWhiteSpace (hd tag) \<and> \<not> isWhiteSpace (last tag)
         \<and> CHR '','' \<notin> set tag"
    proof (cases "tags videoData")
      case None
      with mem tags show ?thesis by simp
    next
      case (Some raw)
      with mem tags
      have "tag \<in> set (take 30 (filter (\<lambda>x. x \<noteq> []) (map trim (split raw (CHR '','')))))"
        by simp
      then have "tag \<in> set (filter (\<lambda>x. x \<noteq> []) (map trim (split raw (CHR '',''))))"
        by (blast dest: in_set_takeD)
      then obtain piece where piece: "piece \<in> set (split raw (CHR '',''))" "tag = trim piece"
        "tag \<noteq> []" by auto
      from piece(1) have "CHR '','' \<notin> set piece" by (rule split_pieces)
      with set_trim [of piece] piece(2) have "CHR '','' \<notin> set tag" by blast
      moreover from piece(2,3) trim_ends [of piece]
      have "\<not> isWhiteSpace (hd tag) \<and> \<not> isWhiteSpace (last tag)" by simp
      ultimately show ?thesis using piece(3) by blast
    qed
  qed
  have defaults: "md_privacyStatus ?md
       = (case privacyStatus videoData of
            None \<Rightarrow> ''private'' | Some p \<Rightarrow> if p = [] then ''private'' else p)"
    "md_categoryId ?md
       = (case categoryId videoData of
            None \<Rightarrow> ''22'' | Some g \<Rightarrow> if g = [] then ''22'' else g)"
    by (simp_all add: videoMetadata_def orElse_def)
  have sent: "\<forall>p. vi_filePath videoData = Some p \<longrightarrow>
         trace (snd (uploadVideo e userId videoData w))
           = trace w @ [VideosInsert ?md p (orElse (mimeType videoData) ''video/mp4'')]"
    using assms
    by (simp add: uploadVideo_def uploadVideo_try_def Let_def trace_emit split: sum.splits)
  have answer: "\<forall>p. vi_filePath videoData = Some p \<longrightarrow>
         uploadVideo e userId videoData w
           = ((case videosInsert e ?md p (orElse (mimeType videoData) ''video/mp4'') of
                 Inl m \<Rightarrow> Failed m
               | Inr r \<Rightarrow>
                   Ok \<lparr>up_videoId = ins_id r,
                       up_videoUrl = ''https://www.youtube.com/watch?v='' @ ins_id r,
                       up_title = ins_title r, up_privacyStatus = ins_privacyStatus r,
                       up_thumbnail = ins_thumbnail r\<rparr>),
              emit (VideosInsert ?md p (orElse (mimeType videoData) ''video/mp4'')) w)"
    using assms
    by (simp add: uploadVideo_def uploadVideo_try_def Let_def split: sum.splits)
  have nofile: "vi_filePath videoData = None \<longrightarrow>
         uploadVideo e userId videoData w = (Failed undefinedPathMessage, w)"
    using assms by (simp add: uploadVideo_def uploadVideo_try_def)
  show ?thesis
    by (intro conjI title descr tags roundtrip count each defaults sent answer nofile)
qed

theorem uploadVideo_metadata_witness:
  "md_title (videoMetadata sampleVideo (replicate 150 (CHR ''a''))) = replicate 100 (CHR ''a'')
   \<and> md_description (videoMetadata sampleVideo (replicate 150 (CHR ''a''))) = []
   \<and> md_tags (videoMetadata sampleVideo (replicate 150 (CHR ''a'')))
       = [''cats'', ''dogs'', ''birds'']
   \<and> md_privacyStatus (videoMetadata sampleVideo (replicate 150 (CHR ''a''))) = ''private''
   \<and> md_categoryId (videoMetadata sampleVideo (replicate 150 (CHR ''a''))) = ''22''
   \<and> trace (snd (uploadVideo sampleEnv 7 sampleVideo authedWorld))
       = [VideosInsert (videoMetadata sampleVideo (replicate 150 (CHR ''a'')))
            ''temp/url_1700000000000.mp4'' ''video/mp4'']"
proof -
  let ?t = "replicate 150 (CHR ''a'')"
  let ?md = "videoMetadata sampleVideo ?t"
  have cred: "getTokens authedWorld 7
                = Some \<lparr>cr_tokens = ''token-set'', cr_savedAt = 1, cr_userId = 7\<rparr>"
    by (simp add: getTokens_def authedWorld_def sampleWorld_def)
  have title: "title sampleVideo = Some ?t"
    by (simp add: sampleVideo_def)
  note th = uploadVideo_metadata [OF cred title, of sampleEnv]
  have d: "description sampleVideo = None" by (simp add: sampleVideo_def)
  have g: "tags sampleVideo = Some '' cats, dogs ,, birds ''" by (simp add: sampleVideo_def)
  have p: "privacyStatus sampleVideo = None" by (simp add: sampleVideo_def)
  have c: "categoryId sampleVideo = None" by (simp add: sampleVideo_def)
  have f: "vi_filePath sampleVideo = Some ''temp/url_1700000000000.mp4''"
    by (simp add: sampleVideo_def)
  have m: "orElse (mimeType sampleVideo) ''video/mp4'' = ''video/mp4''"
    by (simp add: sampleVideo_def orElse_def)
  have pieces:
    "take 30 (filter (\<lambda>x. x \<noteq> []) (map trim (split '' cats, dogs ,, birds '' (CHR '',''))))
       = [''cats'', ''dogs'', ''birds'']"
    by (simp add: trim_def isWhiteSpace_def)
  have empty: "trace authedWorld = []"
    by (simp add: authedWorld_def sampleWorld_def)
  from th have "md_title ?md = take 100 ?t" by (rule conjunct1)
  then have a1: "md_title ?md = replicate 100 (CHR ''a'')" by simp
  from th have "md_description ?md
       = (case description sampleVideo of None \<Rightarrow> [] | Some d \<Rightarrow> take 5000 d)"
    by blast
  then have a2: "md_description ?md = []" by (simp only: d option.case)
  from th have "md_tags ?md
       = (case tags sampleVideo of
            None \<Rightarrow> []
          | Some raw \<Rightarrow> take 30 (filter (\<lambda>x. x \<noteq> []) (map trim (split raw (CHR '','')))))"
    by blast
  then have a3: "md_tags ?md = [''cats'', ''dogs'', ''birds'']"
    by (simp only: g option.case pieces)
  from th have "md_privacyStatus ?md
       = (case privacyStatus sampleVideo of
            None \<Rightarrow> ''private'' | Some p \<Rightarrow> if p = [] then ''private'' else p)"
    by blast
  then have a4: "md_privacyStatus ?md = ''private''" by (simp only: p option.case)
  from th have "md_categoryId ?md
       = (case categoryId sampleVideo of
            None \<Rightarrow> ''22'' | Some g \<Rightarrow> if g = [] then ''22'' else g)"
    by blast
  then have a5: "md_categoryId ?md = ''22''" by (simp only: c option.case)
  from th have "\<forall>p. vi_filePath sampleVideo = Some p \<longrightarrow>
         trace (snd (uploadVideo sampleEnv 7 sampleVideo authedWorld))
           = trace authedWorld @ [VideosInsert ?md p
                          (orElse (mimeType sampleVideo) ''video/mp4'')]"
    by blast
  with f have "trace (snd (uploadVideo sampleEnv 7 sampleVideo authedWorld))
           = trace authedWorld @ [VideosInsert ?md ''temp/url_1700000000000.mp4''
                          (orElse (mimeType sampleVideo) ''video/mp4'')]"
    by blast
  then have a6: "trace (snd (uploadVideo sampleEnv 7 sampleVideo authedWorld))
       = [VideosInsert ?md ''temp/url_1700000000000.mp4'' ''video/mp4'']"
    by (simp only: m empty append_Nil)
  from a1 a2 a3 a4 a5 a6 show ?thesis by (intro conjI)
qed

text \<open>
  The claim as it was stated, for every record with a stored credential, fails where the
  title is unset: \<open>uploadVideo\<close> then returns the failure of reading \<open>substring\<close> from an
  undefined title, with no metadata built and no call made. The bot reaches such a record:
  a privacy button pressed in an idle session puts the session in \<open>awaiting_tags\<close> with
  nothing but the privacy set, and the next text starts the upload.
\<close>

theorem uploadVideo_without_title_counterexample:
  "getTokens authedWorld 7
     = Some \<lparr>cr_tokens = ''token-set'', cr_savedAt = 1, cr_userId = 7\<rparr>
   \<and> title (sampleVideo\<lparr>title := None\<rparr>) = None
   \<and> uploadVideo sampleEnv 7 (sampleVideo\<lparr>title := None\<rparr>) authedWorld
       = (Failed undefinedTitleMessage, authedWorld)
   \<and> videoInfo (fst (setPrivacy ''public'' sampleSession authedWorld))
       = emptyVideoInfo\<lparr>privacyStatus := Some ''public''\<rparr>
   \<and> step (fst (setPrivacy ''public'' sampleSession authedWorld)) = AwaitingTags
   \<and> last (trace (snd (on_text sampleEnv sampleConfig 7 ''skip''
                (fst (setPrivacy ''public'' sampleSession authedWorld))
                (snd (setPrivacy ''public'' sampleSession authedWorld)))))
       = Reply (crossMark @ '' Upload failed: '' @ undefinedTitleMessage)"
proof -
  have cred: "getTokens authedWorld 7
     = Some \<lparr>cr_tokens = ''token-set'', cr_savedAt = 1, cr_userId = 7\<rparr>"
    by (simp add: getTokens_def authedWorld_def sampleWorld_def)
  have notitle: "title (sampleVideo\<lparr>title := None\<rparr>) = None" by simp
  have fails: "uploadVideo sampleEnv 7 (sampleVideo\<lparr>title := None\<rparr>) authedWorld
       = (Failed undefinedTitleMessage, authedWorld)"
    by (simp add: uploadVideo_def uploadVideo_try_def cred)
  have pressed: "setPrivacy ''public'' sampleSession authedWorld
      = (sampleSession\<lparr>videoInfo := emptyVideoInfo\<lparr>privacyStatus := Some ''public''\<rparr>,
                       step := AwaitingTags\<rparr>,
         emit (EditMessageText
                 (''Privacy set to: *'' @ ''public'' @ ''*'' @ nl @ nl
                    @ ''Now, send me tags (comma-separated, or type '' @ skipQuoted @ ''):''))
           (emit AnswerCbQuery authedWorld))"
    by (simp add: setPrivacy_def sampleSession_def)
  have cred': "\<And>a b. getTokens (emit a (emit b (emit AnswerCbQuery authedWorld))) 7
     = Some \<lparr>cr_tokens = ''token-set'', cr_savedAt = 1, cr_userId = 7\<rparr>"
    using cred by (simp add: getTokens_def tokensFile_emit)
  have skip: "toLowerCase ''skip'' = ''skip''" "trim ''skip'' = ''skip''"
    by (simp_all add: toLowerCase_def toLowerChar_def upperCaseLetters_def lowerCaseLetters_def
          trim_def isWhiteSpace_def)
  have said: "last (trace (snd (on_text sampleEnv sampleConfig 7 ''skip''
                (fst (setPrivacy ''public'' sampleSession authedWorld))
                (snd (setPrivacy ''public'' sampleSession authedWorld)))))
       = Reply (crossMark @ '' Upload failed: '' @ undefinedTitleMessage)"
    unfolding pressed
    by (simp add: on_text_def handleTags_def handleTags_settle_def uploadVideo_def
          uploadVideo_try_def cred' skip Let_def trace_emit cleanup_trace sampleSession_def
          emptyVideoInfo_def del: trim_def)
  from pressed have info: "videoInfo (fst (setPrivacy ''public'' sampleSession authedWorld))
       = emptyVideoInfo\<lparr>privacyStatus := Some ''public''\<rparr>"
    "step (fst (setPrivacy ''public'' sampleSession authedWorld)) = AwaitingTags"
    by simp_all
  from cred notitle fails info said show ?thesis by (intro conjI)
qed

end
